theory Spec2Isabelle
  imports Complex_Main "HOL-Library.AList" "HOL-Library.Log_Nat"
begin

section \<open>The vision-board server (server.js)\<close>

text \<open>
  A shallow embedding of \<^verbatim>\<open>server.js\<close>: the document store (\<^verbatim>\<open>readBoard\<close>,
  \<^verbatim>\<open>writeBoard\<close>, \<^verbatim>\<open>defaultBoard\<close>), the file naming of uploads
  (\<^verbatim>\<open>safeExt\<close>, \<^verbatim>\<open>genMoodFilename\<close>) and the four route handlers.

  Conventions of the model.
  \<^item> A JavaScript string is modelled by its UTF-8 encoding, a \<open>string\<close> of bytes; this is
    also what \<^verbatim>\<open>readFileSync\<close> and \<^verbatim>\<open>writeFileSync\<close> with \<^verbatim>\<open>"utf-8"\<close> map from and to
    the file, so a file's contents and the string read from it are the same byte list.
  \<^item> A JavaScript number is modelled by an integer. The handlers only ever test a number
    for being zero and compare it with a string.
  \<^item> An object is the list of its own properties in the order of enumeration. For keys
    that are no array indices, which is all the server names, that is the order of
    insertion.
  \<^item> The file system is a map from absolute paths to nodes, under POSIX path rules and
    without symbolic links. A path that the map does not hold does not exist. Failures
    of the environment (permissions, a full disk, a missing parent directory) are not
    modelled: reading, writing and removing fail only as the node at the path makes them.
  \<^item> The middlewares of Express are not modelled: a handler takes \<^verbatim>\<open>req.body\<close> as the
    JSON body parser leaves it and \<^verbatim>\<open>req.files\<close> as the upload middleware, with its
    limits of 30 files of 12 MiB, leaves them.
  \<^item> The clock (\<^verbatim>\<open>new Date()\<close>) and \<^verbatim>\<open>Math.random()\<close> are arguments. The arithmetic
    on the random number is that of IEEE 754 doubles: the exact result rounded to the
    nearest double, ties to even.
  \<^item> \<^verbatim>\<open>JSON.parse\<close>, \<^verbatim>\<open>JSON.stringify\<close> and \<^verbatim>\<open>__dirname\<close> belong to the runtime and
    are fields of a record \<open>runtime\<close> that every operation takes; a concrete runtime
    (\<open>nodejs\<close>) is defined further down.
\<close>

subsection \<open>JavaScript values\<close>

datatype jsval =
    JUndefined
  | JNull
  | JBool bool
  | JNum int
  | JStr string
  | JArr "jsval list"
  | JObj "(string \<times> jsval) list"

datatype jstype = TUndefined | TObject | TBoolean | TNumber | TString

text \<open>\<^verbatim>\<open>typeof v\<close>: \<^verbatim>\<open>null\<close> and arrays are \<^verbatim>\<open>"object"\<close>.\<close>

fun typeof :: "jsval \<Rightarrow> jstype" where
  "typeof JUndefined = TUndefined"
| "typeof JNull = TObject"
| "typeof (JBool b) = TBoolean"
| "typeof (JNum n) = TNumber"
| "typeof (JStr s) = TString"
| "typeof (JArr xs) = TObject"
| "typeof (JObj kvs) = TObject"

text \<open>Truthiness, as \<^verbatim>\<open>!v\<close>, \<^verbatim>\<open>v || w\<close> and \<^verbatim>\<open>v && w\<close> test it.\<close>

fun truthy :: "jsval \<Rightarrow> bool" where
  "truthy JUndefined = False"
| "truthy JNull = False"
| "truthy (JBool b) = b"
| "truthy (JNum n) = (n \<noteq> 0)"
| "truthy (JStr s) = (s \<noteq> [])"
| "truthy (JArr xs) = True"
| "truthy (JObj kvs) = True"

text \<open>\<^verbatim>\<open>a || b\<close>\<close>

definition js_or :: "jsval \<Rightarrow> jsval \<Rightarrow> jsval" where
  "js_or a b = (if truthy a then a else b)"

text \<open>\<^verbatim>\<open>Array.isArray(v)\<close>\<close>

fun isArray :: "jsval \<Rightarrow> bool" where
  "isArray (JArr xs) = True"
| "isArray v = False"

text \<open>
  \<^verbatim>\<open>v.k\<close> for the property names the server reads (\<^verbatim>\<open>content\<close>, \<^verbatim>\<open>moodImages\<close>,
  \<^verbatim>\<open>filename\<close>), none of which a prototype defines: an own property of an object, and
  \<^verbatim>\<open>undefined\<close> on everything else. The server reads a property of truthy values only.
\<close>

fun get_prop :: "jsval \<Rightarrow> string \<Rightarrow> jsval" where
  "get_prop (JObj kvs) k = (case map_of kvs k of Some v \<Rightarrow> v | None \<Rightarrow> JUndefined)"
| "get_prop v k = JUndefined"

text \<open>
  \<^verbatim>\<open>v.k = w\<close> on an object: an existing property keeps its place, a new one goes last.
\<close>

fun set_prop :: "jsval \<Rightarrow> string \<Rightarrow> jsval \<Rightarrow> jsval" where
  "set_prop (JObj kvs) k w = JObj (AList.update k w kvs)"
| "set_prop v k w = v"

text \<open>The elements of an array.\<close>

fun elems :: "jsval \<Rightarrow> jsval list" where
  "elems (JArr xs) = xs"
| "elems v = []"

subsection \<open>Errors and responses\<close>

datatype js_error = ENOENT | ENOTDIR | EISDIR | TypeError

record response =
  status :: nat
  payload :: jsval

text \<open>
  What a route produces: a response sent with \<^verbatim>\<open>res.json\<close>, or an exception thrown
  out of the handler (Express answers it with status 500).
\<close>

type_synonym outcome = "js_error + response"

subsection \<open>Paths and the file system\<close>

text \<open>
  An absolute, normalised path is its list of segments, paired with a flag that says
  the path string ends in a separator (such a path names a directory only).
\<close>

type_synonym path = "string list \<times> bool"

datatype node = File string | Dir

type_synonym filesys = "string list \<rightharpoonup> node"

fun split_slash :: "string \<Rightarrow> string list" where
  "split_slash [] = [ [] ]"
| "split_slash (c # cs) =
     (if c = CHR ''/'' then [] # split_slash cs
      else (case split_slash cs of [] \<Rightarrow> [ [c] ] | s # ss \<Rightarrow> (c # s) # ss))"

definition norm_step :: "string list \<Rightarrow> string \<Rightarrow> string list" where
  "norm_step segs s =
     (if s = [] \<or> s = ''.'' then segs
      else if s = ''..'' then butlast segs
      else segs @ [s])"

text \<open>
  \<^verbatim>\<open>path.join(base, s)\<close> for an absolute normalised \<open>base\<close>: the segments of \<open>s\<close> are
  applied to \<open>base\<close> from left to right, \<^verbatim>\<open>.\<close> and empty segments dropped, \<^verbatim>\<open>..\<close>
  removing the last segment (and nothing at the root).
\<close>

definition path_join :: "path \<Rightarrow> string \<Rightarrow> path" where
  "path_join base s =
     (foldl norm_step (fst base) (split_slash s), s \<noteq> [] \<and> last s = CHR ''/'')"

text \<open>
  What a path resolves to: a regular file is not found under a name with a trailing
  separator.
\<close>

definition stat :: "filesys \<Rightarrow> path \<Rightarrow> js_error + node" where
  "stat fs p =
     (case fs (fst p) of
        None \<Rightarrow> Inl ENOENT
      | Some Dir \<Rightarrow> Inr Dir
      | Some (File c) \<Rightarrow> if snd p then Inl ENOTDIR else Inr (File c))"

definition existsSync :: "filesys \<Rightarrow> path \<Rightarrow> bool" where
  "existsSync fs p = (case stat fs p of Inl e \<Rightarrow> False | Inr n \<Rightarrow> True)"

definition readFileSync :: "filesys \<Rightarrow> path \<Rightarrow> js_error + string" where
  "readFileSync fs p =
     (case stat fs p of
        Inl e \<Rightarrow> Inl e
      | Inr Dir \<Rightarrow> Inl EISDIR
      | Inr (File c) \<Rightarrow> Inr c)"

definition writeFileSync :: "filesys \<Rightarrow> path \<Rightarrow> string \<Rightarrow> js_error + filesys" where
  "writeFileSync fs p data =
     (case fs (fst p) of
        Some Dir \<Rightarrow> Inl EISDIR
      | Some (File c) \<Rightarrow> if snd p then Inl ENOTDIR else Inr (fs(fst p \<mapsto> File data))
      | None \<Rightarrow> if snd p then Inl EISDIR else Inr (fs(fst p \<mapsto> File data)))"

definition unlinkSync :: "filesys \<Rightarrow> path \<Rightarrow> js_error + filesys" where
  "unlinkSync fs p =
     (case stat fs p of
        Inl e \<Rightarrow> Inl e
      | Inr Dir \<Rightarrow> Inl EISDIR
      | Inr (File c) \<Rightarrow> Inr (fs(fst p := None)))"

subsection \<open>String helpers of the runtime\<close>

text \<open>
  \<^verbatim>\<open>String.prototype.trim\<close> removes white space and line terminators from both ends.
  These are their UTF-8 encodings: U+0009 to U+000D, U+0020, U+00A0, U+1680, U+2000 to
  U+200A, U+2028, U+2029, U+202F, U+205F, U+3000 and U+FEFF.
\<close>

definition js_whitespace :: "string list" where
  "js_whitespace =
     [ [CHR 0x09], [CHR 0x0A], [CHR 0x0B], [CHR 0x0C], [CHR 0x0D], [CHR 0x20],
      [CHR 0xC2, CHR 0xA0],
      [CHR 0xE1, CHR 0x9A, CHR 0x80],
      [CHR 0xE2, CHR 0x80, CHR 0x80], [CHR 0xE2, CHR 0x80, CHR 0x81],
      [CHR 0xE2, CHR 0x80, CHR 0x82], [CHR 0xE2, CHR 0x80, CHR 0x83],
      [CHR 0xE2, CHR 0x80, CHR 0x84], [CHR 0xE2, CHR 0x80, CHR 0x85],
      [CHR 0xE2, CHR 0x80, CHR 0x86], [CHR 0xE2, CHR 0x80, CHR 0x87],
      [CHR 0xE2, CHR 0x80, CHR 0x88], [CHR 0xE2, CHR 0x80, CHR 0x89],
      [CHR 0xE2, CHR 0x80, CHR 0x8A],
      [CHR 0xE2, CHR 0x80, CHR 0xA8], [CHR 0xE2, CHR 0x80, CHR 0xA9],
      [CHR 0xE2, CHR 0x80, CHR 0xAF],
      [CHR 0xE2, CHR 0x81, CHR 0x9F],
      [CHR 0xE3, CHR 0x80, CHR 0x80],
      [CHR 0xEF, CHR 0xBB, CHR 0xBF]]"

text \<open>The length of the first of the words \<open>W\<close> that \<open>s\<close> starts with, 0 when none.\<close>

definition ws_len :: "string list \<Rightarrow> string \<Rightarrow> nat" where
  "ws_len W s =
     (case find (\<lambda>w. take (length w) s = w) W of None \<Rightarrow> 0 | Some w \<Rightarrow> length w)"

function strip :: "string list \<Rightarrow> string \<Rightarrow> string" where
  "strip W s = (if ws_len W s = 0 then s else strip W (drop (ws_len W s) s))"
  by pat_completeness auto
termination
proof (relation "measure (\<lambda>(W, s). length s)")
  show "wf (measure (\<lambda>(W, s). length s))" by simp
next
  fix W :: "string list" and s :: string
  assume pos: "ws_len W s \<noteq> 0"
  have "s \<noteq> []"
  proof
    assume "s = []"
    then have "ws_len W s = 0"
      by (auto simp: ws_len_def split: option.splits dest: find_Some_iff[THEN iffD1])
    with pos show False by simp
  qed
  with pos show "((W, drop (ws_len W s) s), (W, s)) \<in> measure (\<lambda>(W, s). length s)"
    by simp
qed

declare strip.simps [simp del]

definition trim :: "string \<Rightarrow> string" where
  "trim s = rev (strip (map rev js_whitespace) (rev (strip js_whitespace s)))"

subsection \<open>The runtime and the server's constants\<close>

record runtime =
  dirname :: "string list"
  JSON_parse :: "string \<Rightarrow> jsval option"
  JSON_stringify :: "jsval \<Rightarrow> string option"

text \<open>
  \<open>dirname\<close> is \<^verbatim>\<open>__dirname\<close>. \<open>JSON_parse\<close> yields \<open>None\<close> where \<^verbatim>\<open>JSON.parse\<close> throws.
  \<open>JSON_stringify v\<close> stands for \<^verbatim>\<open>JSON.stringify(v, null, 2)\<close>, \<open>None\<close> where it
  returns \<^verbatim>\<open>undefined\<close>.
\<close>

definition PUBLIC_DIR :: "runtime \<Rightarrow> path" where
  "PUBLIC_DIR rt = path_join (dirname rt, False) ''public''"

definition DATA_DIR :: "runtime \<Rightarrow> path" where
  "DATA_DIR rt = path_join (dirname rt, False) ''data''"

definition UPLOAD_DIR :: "runtime \<Rightarrow> path" where
  "UPLOAD_DIR rt = path_join (dirname rt, False) ''uploads''"

definition DATA_FILE :: "runtime \<Rightarrow> path" where
  "DATA_FILE rt = path_join (DATA_DIR rt) ''vision-board.txt''"

subsection \<open>Dates and numbers as text\<close>

text \<open>The decimal digits of a natural number, as a number is printed.\<close>

function digits :: "nat \<Rightarrow> string" where
  "digits n =
     (if n < 10 then [''0123456789'' ! n]
      else digits (n div 10) @ [''0123456789'' ! (n mod 10)])"
  by pat_completeness auto
termination
  by (relation "measure (\<lambda>n. n)") auto

declare digits.simps [simp del]

definition show_int :: "int \<Rightarrow> string" where
  "show_int i = (if i < 0 then CHR ''-'' # digits (nat (- i)) else digits (nat i))"

text \<open>\<^verbatim>\<open>s.padStart(w, "0")\<close>\<close>

definition padStart :: "nat \<Rightarrow> string \<Rightarrow> string" where
  "padStart w s = replicate (w - length s) CHR ''0'' @ s"

text \<open>The UTC calendar fields of a \<^verbatim>\<open>Date\<close>, months counted from 1.\<close>

record date =
  year :: nat
  month :: nat
  day :: nat
  hours :: nat
  minutes :: nat
  seconds :: nat
  millis :: nat


text \<open>
  \<^verbatim>\<open>d.toISOString()\<close>: \<^verbatim>\<open>YYYY-MM-DDTHH:mm:ss.sssZ\<close>, and the expanded form
  \<^verbatim>\<open>+YYYYYY-...\<close> for a year beyond 9999.
\<close>

definition toISOString :: "date \<Rightarrow> string" where
  "toISOString d =
     (if year d \<le> 9999 then padStart 4 (digits (year d))
      else CHR ''+'' # padStart 6 (digits (year d)))
     @ ''-'' @ padStart 2 (digits (month d))
     @ ''-'' @ padStart 2 (digits (day d))
     @ ''T'' @ padStart 2 (digits (hours d))
     @ '':'' @ padStart 2 (digits (minutes d))
     @ '':'' @ padStart 2 (digits (seconds d))
     @ ''.'' @ padStart 3 (digits (millis d))
     @ ''Z''"

subsection \<open>Arithmetic in doubles\<close>

text \<open>
  A double is a real number with a significand of 53 bits: a multiple of \<open>ulp x\<close>, the
  spacing of the doubles around \<open>x\<close>, which is 2 to the power \<open>expo x - 52\<close> for the
  binary exponent \<open>expo x\<close> of \<open>x\<close> (the integer part of its logarithm to base 2), and
  2 to the power -1074 for the subnormal numbers. \<open>rd\<close> rounds a real to the nearest
  double, a tie to the one with the even significand. \<^verbatim>\<open>a * b\<close> and \<^verbatim>\<open>a + b\<close> on
  numbers are the rounded exact product and sum. Overflow is not modelled.
\<close>

text \<open>\<open>pow2 j\<close> is 2 to the power \<open>j\<close>; \<open>expo\<close> is taken of positive numbers.\<close>

definition pow2 :: "int \<Rightarrow> real" where
  "pow2 j = (if 0 \<le> j then 2 ^ nat j else 1 / 2 ^ nat (- j))"

definition expo :: "real \<Rightarrow> int" where
  "expo x = (if 1 \<le> x then bitlen \<lfloor>x\<rfloor> - 1 else - bitlen (\<lceil>1 / x\<rceil> - 1))"

definition ulp :: "real \<Rightarrow> real" where
  "ulp x = pow2 (max (expo \<bar>x\<bar>) (- 1022) - 52)"

definition round_even :: "real \<Rightarrow> int" where
  "round_even y =
     (let f = \<lfloor>y\<rfloor>; d = y - of_int f
      in if d < 1 / 2 then f else if 1 / 2 < d then f + 1 else if even f then f else f + 1)"

definition rd :: "real \<Rightarrow> real" where
  "rd x = (if x = 0 then 0 else ulp x * of_int (round_even (x / ulp x)))"


definition mul64 :: "real \<Rightarrow> real \<Rightarrow> real" where
  "mul64 a b = rd (a * b)"

definition add64 :: "real \<Rightarrow> real \<Rightarrow> real" where
  "add64 a b = rd (a + b)"

subsection \<open>Naming an upload\<close>

text \<open>
  \<^verbatim>\<open>path.extname(p)\<close>: trailing separators are ignored; the extension runs from the
  last dot of the last component to its end, and is empty when that component has no
  dot, starts with its only dot, or is \<^verbatim>\<open>..\<close>.
\<close>

definition extname :: "string \<Rightarrow> string" where
  "extname p =
     (let q = rev (dropWhile (\<lambda>c. c = CHR ''/'') (rev p));
          comp = rev (takeWhile (\<lambda>c. c \<noteq> CHR ''/'') (rev q));
          ext = rev (takeWhile (\<lambda>c. c \<noteq> CHR ''.'') (rev comp))
      in if CHR ''.'' \<notin> set comp \<or> length ext + 1 = length comp \<or> comp = ''..''
         then [] else CHR ''.'' # ext)"

text \<open>
  \<^verbatim>\<open>s.toLowerCase()\<close> on the letters A to Z. A character outside ASCII is left as it
  is; none of them has a lower case among the letters of the allowed extensions, so
  \<open>safeExt\<close> is not affected.
\<close>

definition lower_char :: "char \<Rightarrow> char" where
  "lower_char c =
     (case map_of (zip ''ABCDEFGHIJKLMNOPQRSTUVWXYZ'' ''abcdefghijklmnopqrstuvwxyz'') c of
        Some l \<Rightarrow> l | None \<Rightarrow> c)"

definition toLowerCase :: "string \<Rightarrow> string" where
  "toLowerCase s = map lower_char s"

text \<open>\<open>None\<close> is an \<^verbatim>\<open>originalName\<close> that is \<^verbatim>\<open>undefined\<close>.\<close>

definition safeExt :: "string option \<Rightarrow> string" where
  "safeExt originalName =
     (let ext = toLowerCase (extname (case originalName of None \<Rightarrow> [] | Some s \<Rightarrow> s));
          allowed = {''.png'', ''.jpg'', ''.jpeg'', ''.webp'', ''.gif''}
      in if ext \<in> allowed then ext else ''.jpg'')"

text \<open>
  \<open>now\<close> is \<^verbatim>\<open>new Date()\<close> and \<open>r\<close> is \<^verbatim>\<open>Math.random()\<close>, a double with
  \<open>0 \<le> r < 1\<close>; \<^verbatim>\<open>1000 + Math.random() * 9000\<close> is computed in doubles.
\<close>

definition genMoodFilename :: "date \<Rightarrow> real \<Rightarrow> string option \<Rightarrow> string" where
  "genMoodFilename now r originalName =
     (let ext = safeExt originalName;
          ts = take 14 (filter (\<lambda>c. c \<notin> set ''-:.TZ'') (toISOString now));
          rand = \<lfloor>add64 1000 (mul64 r 9000)\<rfloor>
      in ''mood_'' @ ts @ ''_'' @ show_int rand @ ext)"

text \<open>
  A file of a multipart request, as the upload middleware hands it on: the name the
  client gave and the name it was stored under.
\<close>

record upfile =
  originalname :: "string option"
  filename :: string

text \<open>
  The disk storage of the middleware: the directory and the file name it is configured
  with, and the path it writes a file to.
\<close>

definition storage_destination :: "runtime \<Rightarrow> path" where
  "storage_destination rt = UPLOAD_DIR rt"

definition storage_filename :: "date \<Rightarrow> real \<Rightarrow> string option \<Rightarrow> string" where
  "storage_filename now r orig = genMoodFilename now r orig"

definition storage_path :: "runtime \<Rightarrow> date \<Rightarrow> real \<Rightarrow> string option \<Rightarrow> path" where
  "storage_path rt now r orig =
     path_join (storage_destination rt) (storage_filename now r orig)"

subsection \<open>The document store\<close>

definition readBoard :: "runtime \<Rightarrow> filesys \<Rightarrow> jsval" where
  "readBoard rt fs =
     (if \<not> existsSync fs (DATA_FILE rt) then JNull
      else case readFileSync fs (DATA_FILE rt) of
        Inl e \<Rightarrow> JNull
      | Inr text \<Rightarrow>
          (let raw = trim text
           in if raw = [] then JNull
              else case JSON_parse rt raw of None \<Rightarrow> JNull | Some v \<Rightarrow> v))"

definition writeBoard :: "runtime \<Rightarrow> jsval \<Rightarrow> filesys \<Rightarrow> js_error + filesys" where
  "writeBoard rt data fs =
     (case JSON_stringify rt data of
        None \<Rightarrow> Inl TypeError
      | Some text \<Rightarrow> writeFileSync fs (DATA_FILE rt) text)"

definition default_content :: jsval where
  "default_content = JObj
     [(''subtitle'', JStr ''Click the text to edit. Upload images in Mood & Aesthetic.''),
      (''intentionsTitle'', JStr ''Intentions''),
      (''intentionsTag'', JStr ''Focus''),
      (''intentionsItems'', JArr
        [JStr ''Choose clarity over chaos.'',
         JStr ''Build momentum with small daily wins.'',
         JStr ''Be present with people I love.'',
         JStr (''Create work I'' @ [CHR 0xE2, CHR 0x80, CHR 0x99] @ ''m proud to share.'')]),
      (''quoteMain'', JStr ([CHR 0xE2, CHR 0x80, CHR 0x9C]
         @ ''Warm heart, clear mind, steady steps.'' @ [CHR 0xE2, CHR 0x80, CHR 0x9D])),
      (''quoteSub'', JStr ''My energy for 2026''),
      (''habitsTitle'', JStr ''Habits''),
      (''habitsTag'', JStr ''Daily''),
      (''habitsItems'', JArr
        [JStr ''30 minutes deep work before scrolling.'',
         JStr ''Move my body (walk, swim, stretch).'',
         JStr ''One meaningful check-in with someone.'',
         JStr ''Write 3 lines of gratitude.'']),
      (''moodTitle'', JStr ''Mood & Aesthetic''),
      (''moodTag'', JStr ''Playful + Warm''),
      (''moodHint'', JStr ''No crop: images keep their full height. This panel scrolls.''),
      (''goalsTitle'', JStr ''Goals''),
      (''goalsTag'', JStr ''Milestones''),
      (''goalsItems'', JArr
        [JStr ''One project shipped that I truly care about.'',
         JStr ''Stronger health routine (sleep, movement, meals).'',
         JStr ''More time outdoors + mini trips.'',
         JStr ''Save and invest consistently.'']),
      (''peopleTitle'', JStr ''People & Places''),
      (''peopleTag'', JStr ''Connection''),
      (''peopleItems'', JArr
        [JStr ''Make space for friendships that feel easy.'',
         JStr (''Plan 2'' @ [CHR 0xE2, CHR 0x80, CHR 0x93]
           @ ''3 meaningful catch-ups each month.''),
         JStr ''Create a home vibe that feels calm and warm.'']),
      (''footerTip'', JStr ''Tip: click text to edit. Mood images show fully (no cropping).'')]"

definition defaultBoard :: "date \<Rightarrow> jsval" where
  "defaultBoard now = JObj
     [(''version'', JNum 1),
      (''updatedAt'', JStr (toISOString now)),
      (''content'', default_content),
      (''moodImages'', JArr [])]"

subsection \<open>The routes\<close>

definition ok_response :: response where
  "ok_response = \<lparr>status = 200, payload = JObj [(''ok'', JBool True)]\<rparr>"

definition bad_request :: "string \<Rightarrow> response" where
  "bad_request msg =
     \<lparr>status = 400, payload = JObj [(''ok'', JBool False), (''error'', JStr msg)]\<rparr>"

text \<open>\<^verbatim>\<open>GET /api/board\<close>\<close>

definition get_board :: "runtime \<Rightarrow> date \<Rightarrow> filesys \<Rightarrow> response" where
  "get_board rt now fs =
     (let data = readBoard rt fs
      in \<lparr>status = 200, payload = js_or data (defaultBoard now)\<rparr>)"

text \<open>
  \<^verbatim>\<open>POST /api/board\<close>; \<open>req_body\<close> is \<^verbatim>\<open>req.body\<close>. The result is the outcome and the
  file system the request leaves behind.
\<close>

definition post_board ::
  "runtime \<Rightarrow> date \<Rightarrow> jsval \<Rightarrow> filesys \<Rightarrow> outcome \<times> filesys" where
  "post_board rt now req_body fs =
     (let body = js_or req_body (JObj [])
      in if typeof body \<noteq> TObject then (Inr (bad_request ''Invalid payload''), fs)
         else
           let current = js_or (readBoard rt fs) (defaultBoard now);
               next = JObj
                 [(''version'', JNum 1),
                  (''updatedAt'', JStr (toISOString now)),
                  (''content'',
                     if truthy (get_prop body ''content'')
                        \<and> typeof (get_prop body ''content'') = TObject
                     then get_prop body ''content'' else get_prop current ''content''),
                  (''moodImages'',
                     if isArray (get_prop body ''moodImages'')
                     then get_prop body ''moodImages'' else get_prop current ''moodImages'')]
           in case writeBoard rt next fs of
                Inl e \<Rightarrow> (Inl e, fs)
              | Inr fs' \<Rightarrow> (Inr ok_response, fs'))"

text \<open>
  \<^verbatim>\<open>POST /api/upload-mood\<close>, after the upload middleware has stored the files;
  \<open>req_files\<close> is \<^verbatim>\<open>req.files\<close>, \<open>None\<close> when it is \<^verbatim>\<open>undefined\<close>.
\<close>

definition upload_mood :: "upfile list option \<Rightarrow> filesys \<Rightarrow> outcome \<times> filesys" where
  "upload_mood req_files fs =
     (let files = (case req_files of None \<Rightarrow> [] | Some fl \<Rightarrow> fl);
          saved = map (\<lambda>f. JObj [(''filename'', JStr (filename f)),
                                  (''url'', JStr (''/uploads/'' @ filename f))]) files
      in (Inr \<lparr>status = 200, payload = JObj [(''ok'', JBool True), (''files'', JArr saved)]\<rparr>,
          fs))"

text \<open>\<^verbatim>\<open>POST /api/delete-mood\<close>\<close>

definition delete_mood ::
  "runtime \<Rightarrow> date \<Rightarrow> jsval \<Rightarrow> filesys \<Rightarrow> outcome \<times> filesys" where
  "delete_mood rt now req_body fs =
     (let fname = get_prop (js_or req_body (JObj [])) ''filename''
      in if \<not> truthy fname \<or> typeof fname \<noteq> TString
         then (Inr (bad_request ''filename required''), fs)
         else
           let full = path_join (UPLOAD_DIR rt) (case fname of JStr s \<Rightarrow> s | _ \<Rightarrow> [])
           in case (if existsSync fs full then unlinkSync fs full else Inr fs) of
                Inl e \<Rightarrow> (Inl e, fs)
              | Inr fs1 \<Rightarrow>
                  (let board = readBoard rt fs1
                   in if truthy board \<and> isArray (get_prop board ''moodImages'')
                      then
                        let board1 = set_prop board ''moodImages''
                              (JArr (filter (\<lambda>x. x \<noteq> fname)
                                       (elems (get_prop board ''moodImages''))));
                            board2 = set_prop board1 ''updatedAt'' (JStr (toISOString now))
                        in case writeBoard rt board2 fs1 of
                             Inl e \<Rightarrow> (Inl e, fs1)
                           | Inr fs2 \<Rightarrow> (Inr ok_response, fs2)
                      else (Inr ok_response, fs1)))"

subsection \<open>A concrete runtime\<close>

text \<open>
  \<open>stringify\<close> is \<^verbatim>\<open>JSON.stringify(v, null, 2)\<close>: two spaces of indentation for each
  level, one member or element on a line, \<^verbatim>\<open>{}\<close> and \<^verbatim>\<open>[]\<close> for the empty ones. A
  member whose value is \<^verbatim>\<open>undefined\<close> is left out, an \<^verbatim>\<open>undefined\<close> element is printed
  as \<^verbatim>\<open>null\<close>, and \<^verbatim>\<open>undefined\<close> itself has no text.
\<close>

definition hex_digit :: "nat \<Rightarrow> char" where
  "hex_digit n = ''0123456789abcdef'' ! (n mod 16)"

text \<open>A character inside a JSON string literal.\<close>

definition esc :: "char \<Rightarrow> string" where
  "esc c =
     (if c = CHR 0x22 then [CHR 0x5C, CHR 0x22]
      else if c = CHR 0x5C then [CHR 0x5C, CHR 0x5C]
      else if c = CHR 0x08 then [CHR 0x5C, CHR ''b'']
      else if c = CHR 0x0C then [CHR 0x5C, CHR ''f'']
      else if c = CHR 0x0A then [CHR 0x5C, CHR ''n'']
      else if c = CHR 0x0D then [CHR 0x5C, CHR ''r'']
      else if c = CHR 0x09 then [CHR 0x5C, CHR ''t'']
      else if (of_char c :: nat) < 32
        then [CHR 0x5C, CHR ''u'', CHR ''0'', CHR ''0'',
              hex_digit (of_char c div 16), hex_digit (of_char c mod 16)]
      else [c])"

definition quote :: "string \<Rightarrow> string" where
  "quote s = CHR 0x22 # concat (map esc s) @ [CHR 0x22]"

text \<open>A line break followed by the indentation.\<close>

definition nl :: "nat \<Rightarrow> string" where
  "nl n = CHR 0x0A # replicate n CHR '' ''"

definition all_undefined :: "(string \<times> jsval) list \<Rightarrow> bool" where
  "all_undefined kvs = list_all (\<lambda>kv. snd kv = JUndefined) kvs"

fun ser :: "nat \<Rightarrow> jsval \<Rightarrow> string"
  and ser_elems :: "nat \<Rightarrow> jsval list \<Rightarrow> string"
  and ser_members :: "nat \<Rightarrow> (string \<times> jsval) list \<Rightarrow> string" where
  "ser n JUndefined = ''null''"
| "ser n JNull = ''null''"
| "ser n (JBool b) = (if b then ''true'' else ''false'')"
| "ser n (JNum i) = show_int i"
| "ser n (JStr s) = quote s"
| "ser n (JArr xs) =
     (if xs = [] then ''[]''
      else ''['' @ nl (n + 2) @ ser_elems (n + 2) xs @ nl n @ '']'')"
| "ser n (JObj kvs) =
     (if all_undefined kvs then ''{}''
      else ''{'' @ nl (n + 2) @ ser_members (n + 2) kvs @ nl n @ ''}'')"
| "ser_elems n [] = []"
| "ser_elems n (x # xs) =
     ser n x @ (if xs = [] then [] else '','' @ nl n) @ ser_elems n xs"
| "ser_members n [] = []"
| "ser_members n (kv # kvs) =
     (if snd kv = JUndefined then ser_members n kvs
      else quote (fst kv) @ '': '' @ ser n (snd kv)
           @ (if all_undefined kvs then [] else '','' @ nl n)
           @ ser_members n kvs)"

definition stringify :: "jsval \<Rightarrow> string option" where
  "stringify v = (if v = JUndefined then None else Some (ser 0 v))"

text \<open>
  \<open>parse\<close> is \<^verbatim>\<open>JSON.parse\<close> on the values of the model: \<open>None\<close> is a syntax error. A
  number with a fraction or an exponent, and a \<^verbatim>\<open>\u\<close> escape of a surrogate, have no
  value in the model and are refused as well. The recursion is bounded by the length
  of the text.
\<close>

definition json_ws :: "char \<Rightarrow> bool" where
  "json_ws c \<longleftrightarrow> c = CHR '' '' \<or> c = CHR 0x09 \<or> c = CHR 0x0A \<or> c = CHR 0x0D"

definition skip_ws :: "string \<Rightarrow> string" where
  "skip_ws s = dropWhile json_ws s"

definition is_digit :: "char \<Rightarrow> bool" where
  "is_digit c \<longleftrightarrow> c \<in> set ''0123456789''"

definition digit_val :: "char \<Rightarrow> nat" where
  "digit_val c = (of_char c :: nat) - 48"

definition hex_val :: "char \<Rightarrow> nat option" where
  "hex_val c =
     map_of (zip ''0123456789abcdefABCDEF''
               [0, 1, 2, 3, 4, 5, 6, 7, 8, 9, 10, 11, 12, 13, 14, 15, 10, 11, 12, 13, 14, 15]) c"

text \<open>The UTF-8 encoding of a character of the basic plane that is no surrogate.\<close>

definition utf8 :: "nat \<Rightarrow> string option" where
  "utf8 n =
     (if n < 0x80 then Some [char_of n]
      else if n < 0x800 then Some [char_of (0xC0 + n div 64), char_of (0x80 + n mod 64)]
      else if 0xD800 \<le> n \<and> n < 0xE000 then None
      else Some [char_of (0xE0 + n div 4096), char_of (0x80 + n div 64 mod 64),
                 char_of (0x80 + n mod 64)])"

definition unescape :: "char \<Rightarrow> char option" where
  "unescape e =
     map_of [(CHR 0x22, CHR 0x22), (CHR 0x5C, CHR 0x5C), (CHR ''/'', CHR ''/''),
             (CHR ''b'', CHR 0x08), (CHR ''f'', CHR 0x0C), (CHR ''n'', CHR 0x0A),
             (CHR ''r'', CHR 0x0D), (CHR ''t'', CHR 0x09)] e"

definition unicode_escape :: "string \<Rightarrow> string option" where
  "unicode_escape hs =
     (case map hex_val hs of
        [Some a, Some b, Some c, Some d] \<Rightarrow> utf8 (((a * 16 + b) * 16 + c) * 16 + d)
      | _ \<Rightarrow> None)"

text \<open>The rest of a string literal after its opening quote, and what follows it.\<close>

function p_str :: "string \<Rightarrow> (string \<times> string) option" where
  "p_str [] = None"
| "p_str (c # cs) =
     (if c = CHR 0x22 then Some ([], cs)
      else if c = CHR 0x5C then
        (case cs of
           [] \<Rightarrow> None
         | e # r \<Rightarrow>
             if e = CHR ''u'' then
               (case unicode_escape (take 4 r) of
                  None \<Rightarrow> None
                | Some bs \<Rightarrow> map_option (apfst ((@) bs)) (p_str (drop 4 r)))
             else
               (case unescape e of
                  None \<Rightarrow> None
                | Some ch \<Rightarrow> map_option (apfst ((#) ch)) (p_str r)))
      else if (of_char c :: nat) < 32 then None
      else map_option (apfst ((#) c)) (p_str cs))"
  by pat_completeness auto
termination
  by (relation "measure length") auto

definition p_num :: "string \<Rightarrow> (jsval \<times> string) option" where
  "p_num s =
     (let neg = (s \<noteq> [] \<and> hd s = CHR ''-'');
          r = (if neg then tl s else s);
          ds = takeWhile is_digit r;
          rest = dropWhile is_digit r;
          n = int (foldl (\<lambda>a c. 10 * a + digit_val c) 0 ds)
      in if ds = [] \<or> (1 < length ds \<and> hd ds = CHR ''0'')
            \<or> (rest \<noteq> [] \<and> hd rest \<in> set ''.eE'')
         then None
         else Some (JNum (if neg then - n else n), rest))"

text \<open>
  The members of an object in the order of the text; a repeated key keeps its first
  place and takes the later value.
\<close>

definition obj_of :: "(string \<times> jsval) list \<Rightarrow> jsval" where
  "obj_of ms = JObj (foldl (\<lambda>acc kv. AList.update (fst kv) (snd kv) acc) [] ms)"

fun p_val :: "nat \<Rightarrow> string \<Rightarrow> (jsval \<times> string) option"
  and p_elems :: "nat \<Rightarrow> string \<Rightarrow> (jsval list \<times> string) option"
  and p_members :: "nat \<Rightarrow> string \<Rightarrow> ((string \<times> jsval) list \<times> string) option" where
  "p_val 0 s = None"
| "p_val (Suc f) s =
     (case s of
        [] \<Rightarrow> None
      | c # cs \<Rightarrow>
          if c = CHR ''{'' then
            (case skip_ws cs of
               [] \<Rightarrow> None
             | d # r \<Rightarrow>
                 if d = CHR ''}'' then Some (JObj [], r)
                 else map_option (apfst obj_of) (p_members f (d # r)))
          else if c = CHR ''['' then
            (case skip_ws cs of
               [] \<Rightarrow> None
             | d # r \<Rightarrow>
                 if d = CHR '']'' then Some (JArr [], r)
                 else map_option (apfst JArr) (p_elems f (d # r)))
          else if c = CHR 0x22 then map_option (apfst JStr) (p_str cs)
          else if take 4 s = ''true'' then Some (JBool True, drop 4 s)
          else if take 5 s = ''false'' then Some (JBool False, drop 5 s)
          else if take 4 s = ''null'' then Some (JNull, drop 4 s)
          else p_num s)"
| "p_elems 0 s = None"
| "p_elems (Suc f) s =
     (case p_val f s of
        None \<Rightarrow> None
      | Some (v, r) \<Rightarrow>
          (case skip_ws r of
             [] \<Rightarrow> None
           | d # r' \<Rightarrow>
               if d = CHR '','' then map_option (apfst ((#) v)) (p_elems f (skip_ws r'))
               else if d = CHR '']'' then Some ([v], r')
               else None))"
| "p_members 0 s = None"
| "p_members (Suc f) s =
     (case s of
        [] \<Rightarrow> None
      | q # cs \<Rightarrow>
          if q \<noteq> CHR 0x22 then None
          else
            (case p_str cs of
               None \<Rightarrow> None
             | Some (k, r) \<Rightarrow>
                 (case skip_ws r of
                    [] \<Rightarrow> None
                  | d # r1 \<Rightarrow>
                      if d \<noteq> CHR '':'' then None
                      else
                        (case p_val f (skip_ws r1) of
                           None \<Rightarrow> None
                         | Some (v, r2) \<Rightarrow>
                             (case skip_ws r2 of
                                [] \<Rightarrow> None
                              | d' # r3 \<Rightarrow>
                                  if d' = CHR '','' then
                                    map_option (apfst ((#) (k, v))) (p_members f (skip_ws r3))
                                  else if d' = CHR ''}'' then Some ([(k, v)], r3)
                                  else None)))))"

definition parse :: "string \<Rightarrow> jsval option" where
  "parse s =
     (case p_val (Suc (length s)) (skip_ws s) of
        None \<Rightarrow> None
      | Some (v, r) \<Rightarrow> if skip_ws r = [] then Some v else None)"

text \<open>The server is installed in \<^verbatim>\<open>/srv/app\<close>.\<close>

definition nodejs :: runtime where
  "nodejs = \<lparr>dirname = [''srv'', ''app''], JSON_parse = parse, JSON_stringify = stringify\<rparr>"

text \<open>
  The values that have a JSON text: no \<^verbatim>\<open>undefined\<close> anywhere, and no key twice in an
  object.
\<close>

fun json_value :: "jsval \<Rightarrow> bool" where
  "json_value JUndefined = False"
| "json_value (JArr xs) = (\<forall>x \<in> set xs. json_value x)"
| "json_value (JObj kvs) = (distinct (map fst kvs) \<and> (\<forall>kv \<in> set kvs. json_value (snd kv)))"
| "json_value v = True"

text \<open>
  The characters a printed value starts with and ends in, and the texts that may follow
  a printed number.
\<close>

definition value_start :: "char \<Rightarrow> bool" where
  "value_start c \<longleftrightarrow> c \<in> set (''{[-0123456789tfn'' @ [CHR 0x22])"

definition value_end :: "char \<Rightarrow> bool" where
  "value_end c \<longleftrightarrow> c \<in> set (''}]0123456789el'' @ [CHR 0x22])"

definition ends_number :: "string \<Rightarrow> bool" where
  "ends_number rest \<longleftrightarrow> rest = [] \<or> (\<not> is_digit (hd rest) \<and> hd rest \<notin> set ''.eE'')"

subsection \<open>Example data\<close>

text \<open>A moment in time, the file system right after the start-up of a fresh
  installation (the three directories exist, the document file does not), and that
  file system with a document written to the backing file.\<close>

definition noon :: date where
  "noon = \<lparr>year = 2026, month = 11, day = 2, hours = 12, minutes = 0, seconds = 0, millis = 0\<rparr>"

definition fresh :: "runtime \<Rightarrow> filesys" where
  "fresh rt =
     [fst (PUBLIC_DIR rt) \<mapsto> Dir, fst (DATA_DIR rt) \<mapsto> Dir, fst (UPLOAD_DIR rt) \<mapsto> Dir]"

definition store_of :: "jsval \<Rightarrow> filesys" where
  "store_of doc = (fresh nodejs)(fst (DATA_FILE nodejs) \<mapsto> File (ser 0 doc))"

section \<open>Numbers and dates as text\<close>

lemma digit_nth_mem: "k < 10 \<Longrightarrow> ''0123456789'' ! k \<in> set ''0123456789''"
  by (rule nth_mem) simp

lemma digits_set: "set (digits n) \<subseteq> set ''0123456789''"
proof (induction n rule: digits.induct)
  case (1 n)
  show ?case
  proof (cases "n < 10")
    case True
    then show ?thesis
      using digit_nth_mem [of n] by (subst digits.simps) simp
  next
    case False
    have "n mod 10 < 10" by simp
    then have "''0123456789'' ! (n mod 10) \<in> set ''0123456789''"
      by (rule digit_nth_mem)
    with False "1.IH" show ?thesis
      by (subst digits.simps) simp
  qed
qed



lemma padStart_set: "set (padStart w (digits n)) \<subseteq> set ''0123456789''"
  using digits_set [of n] by (auto simp: padStart_def)




lemma replicate_small: "replicate 2 x = [x, x]" "replicate 3 x = [x, x, x]"
  by (simp_all add: numeral_2_eq_2 numeral_3_eq_3)

lemma noon_iso: "toISOString noon = ''2026-11-02T12:00:00.000Z''"
  by (simp add: toISOString_def noon_def padStart_def digits.simps replicate_small)

section \<open>Paths of the server\<close>

lemma UPLOAD_DIR_segments: "UPLOAD_DIR rt = (dirname rt @ [''uploads''], False)"
  by (simp add: UPLOAD_DIR_def path_join_def norm_step_def)

lemma DATA_FILE_segments: "DATA_FILE rt = (dirname rt @ [''data'', ''vision-board.txt''], False)"
  by (simp add: DATA_FILE_def DATA_DIR_def path_join_def norm_step_def)

section \<open>The document store\<close>

lemma readBoard_unfold:
  "readBoard rt fs =
     (case fs (fst (DATA_FILE rt)) of
        Some (File text) \<Rightarrow>
          if trim text = [] then JNull
          else (case JSON_parse rt (trim text) of None \<Rightarrow> JNull | Some v \<Rightarrow> v)
      | _ \<Rightarrow> JNull)"
  by (simp add: readBoard_def existsSync_def readFileSync_def stat_def DATA_FILE_segments Let_def
      split: option.splits node.splits)

lemma readBoard_truthy_file:
  assumes "truthy (readBoard rt fs)"
  shows "\<exists>text. fs (fst (DATA_FILE rt)) = Some (File text)"
  using assms by (auto simp: readBoard_unfold split: option.splits node.splits)

lemma writeBoard_file:
  assumes "fs (fst (DATA_FILE rt)) \<noteq> Some Dir" and "JSON_stringify rt v = Some text"
  shows "writeBoard rt v fs = Inr (fs(fst (DATA_FILE rt) \<mapsto> File text))"
  using assms
  by (simp add: writeBoard_def writeFileSync_def DATA_FILE_segments split: option.splits node.splits)

lemma ok_not_bad: "ok_response \<noteq> bad_request msg"
  by (simp add: ok_response_def bad_request_def)

section \<open>Saving the board\<close>

lemma post_board_unfold:
  "post_board rt now body fs =
     (if truthy body \<and> typeof body \<noteq> TObject then (Inr (bad_request ''Invalid payload''), fs)
      else
        (let b = js_or body (JObj []);
             current = js_or (readBoard rt fs) (defaultBoard now);
             next = JObj
               [(''version'', JNum 1),
                (''updatedAt'', JStr (toISOString now)),
                (''content'',
                   if truthy (get_prop b ''content'') \<and> typeof (get_prop b ''content'') = TObject
                   then get_prop b ''content'' else get_prop current ''content''),
                (''moodImages'',
                   if isArray (get_prop b ''moodImages'')
                   then get_prop b ''moodImages'' else get_prop current ''moodImages'')]
         in case writeBoard rt next fs of
              Inl e \<Rightarrow> (Inl e, fs)
            | Inr fs' \<Rightarrow> (Inr ok_response, fs')))"
  by (cases body) (simp_all add: post_board_def js_or_def Let_def)

text \<open>
  Claim C1, as the code has it. \<^verbatim>\<open>POST /api/board\<close> answers 400 with the message
  \<^verbatim>\<open>Invalid payload\<close>, and leaves the file system as it was, for every body that is
  truthy and whose \<^verbatim>\<open>typeof\<close> is not \<^verbatim>\<open>"object"\<close>: a number other than zero, a string
  that is not empty, or \<^verbatim>\<open>true\<close>. For every other body (a plain object, an array, or a
  missing or falsy body, which the handler replaces by \<^verbatim>\<open>{}\<close>) no 400 is returned: a
  response, when there is one, is the acknowledgment with status 200.
\<close>

theorem post_board_bad_request:
  "(truthy body \<and> typeof body \<noteq> TObject \<longrightarrow>
      post_board rt now body fs = (Inr (bad_request ''Invalid payload''), fs))
   \<and> (\<not> (truthy body \<and> typeof body \<noteq> TObject) \<longrightarrow>
      (\<forall>r. fst (post_board rt now body fs) = Inr r \<longrightarrow> r = ok_response \<and> status r = 200))"
  by (auto simp: post_board_unfold Let_def ok_response_def split: sum.splits)

theorem post_board_bad_request_witness:
  "post_board nodejs noon (JNum 5) (store_of (JObj []))
     = (Inr (bad_request ''Invalid payload''), store_of (JObj []))
   \<and> fst (post_board nodejs noon (JObj []) (store_of (JObj []))) = Inr ok_response"
proof -
  have run: "fst (post_board nodejs noon (JObj []) (store_of (JObj []))) = Inr ok_response"
    by code_simp
  show ?thesis
    using post_board_bad_request [of "JNum 5" nodejs noon "store_of (JObj [])"]
      post_board_bad_request [of "JObj []" nodejs noon "store_of (JObj [])"] run
    by simp
qed

text \<open>
  Claim C1 as stated fails for an array: the body \<^verbatim>\<open>[]\<close> is acknowledged with status
  200, and the stored document \<^verbatim>\<open>{}\<close> is replaced by a new one.
\<close>

theorem post_board_array_counterexample:
  "fst (post_board nodejs noon (JArr []) (store_of (JObj []))) = Inr ok_response
   \<and> status ok_response = 200
   \<and> readBoard nodejs (store_of (JObj [])) = JObj []
   \<and> readBoard nodejs (snd (post_board nodejs noon (JArr []) (store_of (JObj []))))
       = JObj [(''version'', JNum 1), (''updatedAt'', JStr ''2026-11-02T12:00:00.000Z'')]"
  by code_simp

lemma post_board_saves:
  assumes obj: "truthy body" "typeof body = TObject"
    and nodir: "fs (fst (DATA_FILE rt)) \<noteq> Some Dir"
    and cur: "current = js_or (readBoard rt fs) (defaultBoard now)"
    and nxt: "doc = JObj
        [(''version'', JNum 1),
         (''updatedAt'', JStr (toISOString now)),
         (''content'',
            if truthy (get_prop body ''content'') \<and> typeof (get_prop body ''content'') = TObject
            then get_prop body ''content'' else get_prop current ''content''),
         (''moodImages'',
            if isArray (get_prop body ''moodImages'')
            then get_prop body ''moodImages'' else get_prop current ''moodImages'')]"
    and str: "JSON_stringify rt doc = Some raw"
  shows "post_board rt now body fs = (Inr ok_response, fs(fst (DATA_FILE rt) \<mapsto> File raw))"
proof -
  have b: "js_or body (JObj []) = body" using obj by (simp add: js_or_def)
  have w: "writeBoard rt doc fs = Inr (fs(fst (DATA_FILE rt) \<mapsto> File raw))"
    using nodir str by (rule writeBoard_file)
  have "post_board rt now body fs =
      (case writeBoard rt doc fs of Inl e \<Rightarrow> (Inl e, fs) | Inr fs' \<Rightarrow> (Inr ok_response, fs'))"
    unfolding nxt cur using obj b by (simp add: post_board_unfold Let_def split del: if_split)
  then show ?thesis by (simp add: w)
qed

text \<open>
  Claim C2, as the code has it. For a body that is truthy with \<^verbatim>\<open>typeof\<close>
  \<^verbatim>\<open>"object"\<close> (a plain object or an array) and every file system in which the
  backing path is not a directory, \<^verbatim>\<open>POST /api/board\<close> acknowledges and leaves in the
  backing file the serialisation of the document \<open>next\<close> with \<^verbatim>\<open>version\<close> 1,
  \<^verbatim>\<open>updatedAt\<close> the current time, \<^verbatim>\<open>content\<close> the body's when that is truthy with
  \<^verbatim>\<open>typeof\<close> \<^verbatim>\<open>"object"\<close> (a plain object or an array) and the current document's
  otherwise, \<^verbatim>\<open>moodImages\<close> the body's when that is an array and the current
  document's otherwise; the current document is what \<open>readBoard\<close> returns, or the
  default when that is falsy. So the body \<^verbatim>\<open>{}\<close> keeps both fields, a body with
  \<^verbatim>\<open>content: {a: 1}\<close> stores exactly \<^verbatim>\<open>{a: 1}\<close> as the content, whatever the content
  was before, a body whose \<^verbatim>\<open>content\<close> is an array stores that array as the content,
  and a body whose \<^verbatim>\<open>content\<close> is \<^verbatim>\<open>null\<close>, a string, a number or a boolean keeps the
  current content.
\<close>

theorem post_board_persists:
  assumes "truthy body" and "typeof body = TObject"
    and "fs (fst (DATA_FILE rt)) \<noteq> Some Dir"
    and "current = js_or (readBoard rt fs) (defaultBoard now)"
    and "doc = JObj
        [(''version'', JNum 1),
         (''updatedAt'', JStr (toISOString now)),
         (''content'',
            if truthy (get_prop body ''content'') \<and> typeof (get_prop body ''content'') = TObject
            then get_prop body ''content'' else get_prop current ''content''),
         (''moodImages'',
            if isArray (get_prop body ''moodImages'')
            then get_prop body ''moodImages'' else get_prop current ''moodImages'')]"
    and "JSON_stringify rt doc = Some raw"
  shows "post_board rt now body fs = (Inr ok_response, fs(fst (DATA_FILE rt) \<mapsto> File raw))
    \<and> (body = JObj [] \<longrightarrow>
          get_prop doc ''content'' = get_prop current ''content''
          \<and> get_prop doc ''moodImages'' = get_prop current ''moodImages'')
    \<and> (get_prop body ''content'' = JObj [(''a'', JNum 1)] \<longrightarrow>
          get_prop doc ''content'' = JObj [(''a'', JNum 1)])
    \<and> (isArray (get_prop body ''content'') \<longrightarrow>
          get_prop doc ''content'' = get_prop body ''content'')
    \<and> (typeof (get_prop body ''content'') \<in> {TString, TNumber, TBoolean}
        \<or> get_prop body ''content'' = JNull \<longrightarrow>
          get_prop doc ''content'' = get_prop current ''content'')"
proof -
  have "post_board rt now body fs = (Inr ok_response, fs(fst (DATA_FILE rt) \<mapsto> File raw))"
    using assms by (rule post_board_saves)
  moreover have "body = JObj [] \<longrightarrow>
          get_prop doc ''content'' = get_prop current ''content''
          \<and> get_prop doc ''moodImages'' = get_prop current ''moodImages''"
    using assms(5) by simp
  moreover have "get_prop body ''content'' = JObj [(''a'', JNum 1)] \<longrightarrow>
          get_prop doc ''content'' = JObj [(''a'', JNum 1)]"
    using assms(5) by simp
  moreover have "isArray (get_prop body ''content'') \<longrightarrow>
          get_prop doc ''content'' = get_prop body ''content''"
    using assms(5) by (cases "get_prop body ''content''") simp_all
  moreover have "typeof (get_prop body ''content'') \<in> {TString, TNumber, TBoolean}
        \<or> get_prop body ''content'' = JNull \<longrightarrow>
          get_prop doc ''content'' = get_prop current ''content''"
    using assms(5) by auto
  ultimately show ?thesis by blast
qed

text \<open>
  Claim C2 as stated fails when \<^verbatim>\<open>body.content\<close> is an array: the test
  \<^verbatim>\<open>typeof body.content === "object"\<close> lets an array through. With the content
  \<^verbatim>\<open>{b: 2}\<close> in the store, the body \<^verbatim>\<open>{content: [1]}\<close> is acknowledged and leaves a
  document whose content is the array \<^verbatim>\<open>[1]\<close>, not the content it had.
\<close>

theorem post_board_array_content_counterexample:
  "fst (post_board nodejs noon (JObj [(''content'', JArr [JNum 1])])
         (store_of (JObj [(''content'', JObj [(''b'', JNum 2)]), (''moodImages'', JArr [])])))
     = Inr ok_response
   \<and> isArray (JArr [JNum 1])
   \<and> get_prop (readBoard nodejs
         (store_of (JObj [(''content'', JObj [(''b'', JNum 2)]), (''moodImages'', JArr [])])))
       ''content'' = JObj [(''b'', JNum 2)]
   \<and> readBoard nodejs
         (snd (post_board nodejs noon (JObj [(''content'', JArr [JNum 1])])
            (store_of (JObj [(''content'', JObj [(''b'', JNum 2)]), (''moodImages'', JArr [])]))))
       = JObj [(''version'', JNum 1),
               (''updatedAt'', JStr ''2026-11-02T12:00:00.000Z''),
               (''content'', JArr [JNum 1]),
               (''moodImages'', JArr [])]"
  by code_simp

theorem post_board_persists_witness:
  "post_board nodejs noon (JObj [(''content'', JObj [(''a'', JNum 1)])])
     (store_of (JObj [(''content'', JObj [(''b'', JNum 2)]), (''moodImages'', JArr [JStr ''x.png''])]))
   = (Inr ok_response,
      (store_of (JObj [(''content'', JObj [(''b'', JNum 2)]), (''moodImages'', JArr [JStr ''x.png''])]))
        (fst (DATA_FILE nodejs) \<mapsto> File (ser 0 (JObj
          [(''version'', JNum 1),
           (''updatedAt'', JStr ''2026-11-02T12:00:00.000Z''),
           (''content'', JObj [(''a'', JNum 1)]),
           (''moodImages'', JArr [JStr ''x.png''])]))))"
proof -
  let ?body = "JObj [(''content'', JObj [(''a'', JNum 1)])]"
  let ?old = "JObj [(''content'', JObj [(''b'', JNum 2)]), (''moodImages'', JArr [JStr ''x.png''])]"
  let ?new = "JObj
          [(''version'', JNum 1),
           (''updatedAt'', JStr ''2026-11-02T12:00:00.000Z''),
           (''content'', JObj [(''a'', JNum 1)]),
           (''moodImages'', JArr [JStr ''x.png''])]"
  have r: "readBoard nodejs (store_of ?old) = ?old" by code_simp
  note t = noon_iso
  have d: "store_of ?old (fst (DATA_FILE nodejs)) \<noteq> Some Dir" by (simp add: store_of_def)
  have s: "JSON_stringify nodejs ?new = Some (ser 0 ?new)" by (simp add: nodejs_def stringify_def)
  show ?thesis
    using post_board_persists [where body = "?body" and fs = "store_of ?old" and rt = nodejs
        and current = "?old" and now = noon and doc = "?new" and raw = "ser 0 ?new"] r t d s
    by (simp add: js_or_def)
qed

section \<open>Reading the board\<close>

text \<open>
  Claim C7. \<open>readBoard\<close> returns the parsed value when the backing file exists, is not
  empty after trimming and parses; it returns \<^verbatim>\<open>null\<close> when the file is missing, is
  empty after trimming, or does not parse, so a result other than \<^verbatim>\<open>null\<close> is always
  the parsed contents of the file. \<^verbatim>\<open>GET /api/board\<close> always answers with status 200:
  with the value read when there is one (it is truthy), and with the default document,
  whose \<^verbatim>\<open>moodImages\<close> is empty, otherwise.
\<close>

theorem readBoard_get_board:
  "(\<forall>raw v. fs (fst (DATA_FILE rt)) = Some (File raw) \<and> trim raw \<noteq> []
        \<and> JSON_parse rt (trim raw) = Some v \<longrightarrow> readBoard rt fs = v)
   \<and> (fs (fst (DATA_FILE rt)) = None \<longrightarrow> readBoard rt fs = JNull)
   \<and> (\<forall>raw. fs (fst (DATA_FILE rt)) = Some (File raw) \<and> trim raw = []
        \<longrightarrow> readBoard rt fs = JNull)
   \<and> (\<forall>raw. fs (fst (DATA_FILE rt)) = Some (File raw) \<and> JSON_parse rt (trim raw) = None
        \<longrightarrow> readBoard rt fs = JNull)
   \<and> (readBoard rt fs \<noteq> JNull \<longrightarrow>
        (\<exists>raw. fs (fst (DATA_FILE rt)) = Some (File raw) \<and> trim raw \<noteq> []
           \<and> JSON_parse rt (trim raw) = Some (readBoard rt fs)))
   \<and> status (get_board rt now fs) = 200
   \<and> (truthy (readBoard rt fs) \<longrightarrow> payload (get_board rt now fs) = readBoard rt fs)
   \<and> (\<not> truthy (readBoard rt fs) \<longrightarrow> payload (get_board rt now fs) = defaultBoard now)
   \<and> get_prop (defaultBoard now) ''moodImages'' = JArr []"
  by (auto simp: readBoard_unfold get_board_def js_or_def defaultBoard_def Let_def
      split: option.splits node.splits)

theorem readBoard_get_board_witness:
  "readBoard nodejs (store_of (JObj [(''moodImages'', JArr [])])) = JObj [(''moodImages'', JArr [])]
   \<and> payload (get_board nodejs noon (store_of (JObj [(''moodImages'', JArr [])])))
       = JObj [(''moodImages'', JArr [])]
   \<and> readBoard nodejs (fresh nodejs) = JNull
   \<and> payload (get_board nodejs noon (fresh nodejs)) = defaultBoard noon
   \<and> readBoard nodejs ((fresh nodejs)(fst (DATA_FILE nodejs) \<mapsto> File ''  '')) = JNull
   \<and> readBoard nodejs ((fresh nodejs)(fst (DATA_FILE nodejs) \<mapsto> File ''{oops'')) = JNull"
proof -
  let ?doc = "JObj [(''moodImages'', JArr [])]"
  let ?blank = "(fresh nodejs)(fst (DATA_FILE nodejs) \<mapsto> File ''  '')"
  let ?bad = "(fresh nodejs)(fst (DATA_FILE nodejs) \<mapsto> File ''{oops'')"
  have f: "store_of ?doc (fst (DATA_FILE nodejs)) = Some (File (ser 0 ?doc))"
    by (simp add: store_of_def)
  have p: "trim (ser 0 ?doc) \<noteq> [] \<and> JSON_parse nodejs (trim (ser 0 ?doc)) = Some ?doc"
    by code_simp
  have n: "fresh nodejs (fst (DATA_FILE nodejs)) = None"
    by code_simp
  have b: "?blank (fst (DATA_FILE nodejs)) = Some (File ''  '') \<and> trim ''  '' = []"
    by code_simp
  have g: "?bad (fst (DATA_FILE nodejs)) = Some (File ''{oops'')
      \<and> JSON_parse nodejs (trim ''{oops'') = None"
    by code_simp
  have r1: "readBoard nodejs (store_of ?doc) = ?doc"
    using readBoard_get_board [of "store_of ?doc" nodejs noon] f p by blast
  then have "truthy (readBoard nodejs (store_of ?doc))" by simp
  then have r2: "payload (get_board nodejs noon (store_of ?doc)) = ?doc"
    using readBoard_get_board [of "store_of ?doc" nodejs noon] r1 by metis
  have r3: "readBoard nodejs (fresh nodejs) = JNull"
    using readBoard_get_board [of "fresh nodejs" nodejs noon] n by blast
  then have "\<not> truthy (readBoard nodejs (fresh nodejs))" by simp
  then have r4: "payload (get_board nodejs noon (fresh nodejs)) = defaultBoard noon"
    using readBoard_get_board [of "fresh nodejs" nodejs noon] by blast
  have r5: "readBoard nodejs ?blank = JNull"
    using readBoard_get_board [of ?blank nodejs noon] b by blast
  have r6: "readBoard nodejs ?bad = JNull"
    using readBoard_get_board [of ?bad nodejs noon] g by blast
  from r1 r2 r3 r4 r5 r6 show ?thesis by blast
qed

section \<open>No schema on what is read\<close>

text \<open>
  Claim C10. Whatever the backing file parses to is passed on by \<^verbatim>\<open>GET /api/board\<close>
  unchanged when it is truthy, of whatever shape (the number 5, a string that is not
  empty and an array are truthy); a falsy one, that is \<^verbatim>\<open>null\<close>, 0, \<^verbatim>\<open>false\<close> or the
  empty string, is replaced by the default document.
\<close>

theorem get_board_no_schema:
  assumes "fs (fst (DATA_FILE rt)) = Some (File raw)" and "trim raw \<noteq> []"
    and "JSON_parse rt (trim raw) = Some v"
  shows "(truthy v \<longrightarrow> payload (get_board rt now fs) = v)
    \<and> (v \<in> {JNull, JNum 0, JBool False, JStr []} \<longrightarrow>
         payload (get_board rt now fs) = defaultBoard now)
    \<and> (v \<noteq> JUndefined \<longrightarrow> (truthy v \<longleftrightarrow> v \<notin> {JNull, JNum 0, JBool False, JStr []}))
    \<and> truthy (JNum 5) \<and> truthy (JStr ''five'') \<and> truthy (JArr [])"
proof -
  have "readBoard rt fs = v"
    using assms by (simp add: readBoard_unfold)
  then have "payload (get_board rt now fs) = (if truthy v then v else defaultBoard now)"
    by (simp add: get_board_def js_or_def)
  moreover have "v \<noteq> JUndefined \<longrightarrow> (truthy v \<longleftrightarrow> v \<notin> {JNull, JNum 0, JBool False, JStr []})"
    by (cases v) auto
  ultimately show ?thesis by auto
qed


theorem get_board_no_schema_witness:
  "payload (get_board nodejs noon ((fresh nodejs)(fst (DATA_FILE nodejs) \<mapsto> File ''5''))) = JNum 5
   \<and> payload (get_board nodejs noon ((fresh nodejs)(fst (DATA_FILE nodejs) \<mapsto> File ''0'')))
       = defaultBoard noon"
proof -
  have five: "trim ''5'' \<noteq> [] \<and> JSON_parse nodejs (trim ''5'') = Some (JNum 5)"
    by code_simp
  have zero: "trim ''0'' \<noteq> [] \<and> JSON_parse nodejs (trim ''0'') = Some (JNum 0)"
    by code_simp
  show ?thesis
    using get_board_no_schema [where fs = "(fresh nodejs)(fst (DATA_FILE nodejs) \<mapsto> File ''5'')"
        and rt = nodejs and raw = "''5''" and v = "JNum 5" and now = noon]
      get_board_no_schema [where fs = "(fresh nodejs)(fst (DATA_FILE nodejs) \<mapsto> File ''0'')"
        and rt = nodejs and raw = "''0''" and v = "JNum 0" and now = noon]
      five zero
    by simp
qed

section \<open>Deleting a mood image\<close>

lemma delete_mood_unfold:
  assumes "get_prop body ''filename'' = JStr name" and "name \<noteq> []"
  shows "delete_mood rt now body fs =
     (let full = path_join (UPLOAD_DIR rt) name
      in case (if existsSync fs full then unlinkSync fs full else Inr fs) of
           Inl e \<Rightarrow> (Inl e, fs)
         | Inr fs1 \<Rightarrow>
             (let board = readBoard rt fs1
              in if truthy board \<and> isArray (get_prop board ''moodImages'')
                 then
                   let board1 = set_prop board ''moodImages''
                         (JArr (filter (\<lambda>x. x \<noteq> JStr name)
                                  (elems (get_prop board ''moodImages''))));
                       board2 = set_prop board1 ''updatedAt'' (JStr (toISOString now))
                   in case writeBoard rt board2 fs1 of
                        Inl e \<Rightarrow> (Inl e, fs1)
                      | Inr fs2 \<Rightarrow> (Inr ok_response, fs2)
                 else (Inr ok_response, fs1)))"
proof -
  from assms(1) obtain kvs where "body = JObj kvs" by (cases body) auto
  with assms show ?thesis
    by (simp add: delete_mood_def js_or_def Let_def)
qed

lemma delete_mood_rejects:
  assumes "typeof (get_prop (js_or body (JObj [])) ''filename'') \<noteq> TString
           \<or> get_prop (js_or body (JObj [])) ''filename'' = JStr []"
  shows "delete_mood rt now body fs = (Inr (bad_request ''filename required''), fs)"
  using assms by (auto simp: delete_mood_def Let_def)

lemma delete_mood_accepts:
  assumes "typeof (get_prop (js_or body (JObj [])) ''filename'') = TString"
    and "get_prop (js_or body (JObj [])) ''filename'' \<noteq> JStr []"
  shows "delete_mood rt now body fs \<noteq> (Inr (bad_request ''filename required''), fs)"
proof -
  obtain name where n: "get_prop (js_or body (JObj [])) ''filename'' = JStr name"
    using assms(1) by (cases "get_prop (js_or body (JObj [])) ''filename''") auto
  with assms(2) have "name \<noteq> []" by simp
  with n show ?thesis
    by (auto simp: delete_mood_def Let_def ok_not_bad split: sum.splits if_splits)
qed

lemma writeBoard_frame:
  assumes "writeBoard rt v fs = Inr fs'" and "p \<noteq> fst (DATA_FILE rt)"
  shows "fs' p = fs p"
  using assms
  by (auto simp: writeBoard_def writeFileSync_def split: option.splits node.splits if_splits)

lemma unlink_regular:
  assumes "stat fs full = Inr (File c)"
  shows "existsSync fs full" and "unlinkSync fs full = Inr (fs(fst full := None))"
  using assms by (simp_all add: existsSync_def unlinkSync_def)

lemma unlink_step:
  assumes "fs (fst full) \<noteq> Some Dir"
  shows "(if existsSync fs full then unlinkSync fs full else Inr fs)
           = Inr (if existsSync fs full then fs(fst full := None) else fs)"
  using assms
  by (auto simp: existsSync_def unlinkSync_def stat_def split: option.splits node.splits if_splits)

text \<open>
  Claim C3. For a filename the handler accepts, when a regular file exists at the path
  that joins the upload directory with the filename as it was sent, that path is what
  the request removes: apart from the backing file of the document, which the second
  step of the handler may rewrite, the file system afterwards is the one before with
  exactly this path gone. The joined path can lie outside the upload directory: the
  filename \<^verbatim>\<open>../data/vision-board.txt\<close> joins to the backing file of the document,
  which is not below the upload directory, and a request naming a path that joins to
  it is acknowledged and leaves the document file deleted.
\<close>

theorem delete_mood_unlinks_joined_path:
  assumes "get_prop body ''filename'' = JStr name" and "name \<noteq> []"
    and "full = path_join (UPLOAD_DIR rt) name"
    and "stat fs full = Inr (File c)"
  shows "(\<forall>p. p \<noteq> fst (DATA_FILE rt) \<longrightarrow>
            snd (delete_mood rt now body fs) p = (fs(fst full := None)) p)
    \<and> (fst full = fst (DATA_FILE rt) \<longrightarrow>
          delete_mood rt now body fs = (Inr ok_response, fs(fst (DATA_FILE rt) := None)))
    \<and> path_join (UPLOAD_DIR rt) ''../data/vision-board.txt'' = DATA_FILE rt
    \<and> take (length (fst (UPLOAD_DIR rt))) (fst (DATA_FILE rt)) \<noteq> fst (UPLOAD_DIR rt)"
proof -
  let ?fs1 = "fs(fst full := None)"
  have step: "(if existsSync fs full then unlinkSync fs full else Inr fs) = Inr ?fs1"
    using unlink_regular [OF assms(4)] by simp
  have run: "delete_mood rt now body fs =
     (let board = readBoard rt ?fs1
      in if truthy board \<and> isArray (get_prop board ''moodImages'')
         then
           let board1 = set_prop board ''moodImages''
                 (JArr (filter (\<lambda>x. x \<noteq> JStr name) (elems (get_prop board ''moodImages''))));
               board2 = set_prop board1 ''updatedAt'' (JStr (toISOString now))
           in case writeBoard rt board2 ?fs1 of
                Inl e \<Rightarrow> (Inl e, ?fs1)
              | Inr fs2 \<Rightarrow> (Inr ok_response, fs2)
         else (Inr ok_response, ?fs1))"
    unfolding delete_mood_unfold [OF assms(1,2)] Let_def assms(3) [symmetric] step by simp
  have a: "\<forall>p. p \<noteq> fst (DATA_FILE rt) \<longrightarrow> snd (delete_mood rt now body fs) p = ?fs1 p"
    by (auto simp: run Let_def writeBoard_frame split: sum.splits)
  have b: "fst full = fst (DATA_FILE rt) \<longrightarrow>
          delete_mood rt now body fs = (Inr ok_response, fs(fst (DATA_FILE rt) := None))"
  proof
    assume eq: "fst full = fst (DATA_FILE rt)"
    then have "readBoard rt ?fs1 = JNull" by (simp add: readBoard_unfold)
    with eq show "delete_mood rt now body fs = (Inr ok_response, fs(fst (DATA_FILE rt) := None))"
      by (simp add: run)
  qed
  have c: "path_join (UPLOAD_DIR rt) ''../data/vision-board.txt'' = DATA_FILE rt"
    by (simp add: UPLOAD_DIR_segments DATA_FILE_segments path_join_def norm_step_def)
  have d: "take (length (fst (UPLOAD_DIR rt))) (fst (DATA_FILE rt)) \<noteq> fst (UPLOAD_DIR rt)"
    by (simp add: UPLOAD_DIR_segments DATA_FILE_segments)
  from a b c d show ?thesis by blast
qed


lemma delete_mood_after_unlink:
  assumes "get_prop body ''filename'' = JStr name" and "name \<noteq> []"
    and "(if existsSync fs (path_join (UPLOAD_DIR rt) name)
          then unlinkSync fs (path_join (UPLOAD_DIR rt) name) else Inr fs) = Inr fs1"
    and "board = readBoard rt fs1"
    and "board' = set_prop (set_prop board ''moodImages''
            (JArr (filter (\<lambda>x. x \<noteq> JStr name) (elems (get_prop board ''moodImages'')))))
            ''updatedAt'' (JStr (toISOString now))"
  shows "delete_mood rt now body fs =
     (if truthy board \<and> isArray (get_prop board ''moodImages'')
      then case writeBoard rt board' fs1 of
             Inl e \<Rightarrow> (Inl e, fs1)
           | Inr fs2 \<Rightarrow> (Inr ok_response, fs2)
      else (Inr ok_response, fs1))"
  unfolding delete_mood_unfold [OF assms(1,2)] Let_def assms(3) assms(4) assms(5) by simp

lemma delete_mood_board_step:
  assumes "get_prop body ''filename'' = JStr name" and "name \<noteq> []"
    and "(if existsSync fs (path_join (UPLOAD_DIR rt) name)
          then unlinkSync fs (path_join (UPLOAD_DIR rt) name) else Inr fs) = Inr fs1"
    and "board = readBoard rt fs1"
    and "board' = set_prop (set_prop board ''moodImages''
            (JArr (filter (\<lambda>x. x \<noteq> JStr name) (elems (get_prop board ''moodImages'')))))
            ''updatedAt'' (JStr (toISOString now))"
  shows "if truthy board \<and> isArray (get_prop board ''moodImages'')
         then (\<forall>out. JSON_stringify rt board' = Some out \<longrightarrow>
                 delete_mood rt now body fs
                   = (Inr ok_response, fs1(fst (DATA_FILE rt) \<mapsto> File out)))
         else delete_mood rt now body fs = (Inr ok_response, fs1)"
proof -
  note eq = delete_mood_after_unlink [OF assms]
  show ?thesis
  proof (cases "truthy board \<and> isArray (get_prop board ''moodImages'')")
    case True
    then have "fs1 (fst (DATA_FILE rt)) \<noteq> Some Dir"
      using readBoard_truthy_file [of rt fs1] assms(4) by auto
    then have "\<forall>out. JSON_stringify rt board' = Some out \<longrightarrow>
        writeBoard rt board' fs1 = Inr (fs1(fst (DATA_FILE rt) \<mapsto> File out))"
      by (simp add: writeBoard_file)
    with True show ?thesis unfolding eq by auto
  next
    case False
    then show ?thesis unfolding eq by auto
  qed
qed

text \<open>
  Claim C4, as the code has it. \<^verbatim>\<open>POST /api/delete-mood\<close> answers 400 exactly when
  the filename is missing, is not a string, or is the empty string. Otherwise, when the
  path joined from the upload directory and the filename is not a directory, the
  handler removes the file at that path if there is one and goes on if there is none;
  then, if the document it reads is truthy and its \<^verbatim>\<open>moodImages\<close> is an array, it
  removes every element equal to the filename, sets \<^verbatim>\<open>updatedAt\<close> to the current
  time and writes the document back, and else leaves the file system as the first step
  left it (in particular when no document exists); in both cases it acknowledges.
\<close>

theorem delete_mood_contract:
  "(delete_mood rt now body fs = (Inr (bad_request ''filename required''), fs)
      \<longleftrightarrow> typeof (get_prop (js_or body (JObj [])) ''filename'') \<noteq> TString
          \<or> get_prop (js_or body (JObj [])) ''filename'' = JStr [])
   \<and> (\<forall>name full fs1 board board'.
        get_prop body ''filename'' = JStr name \<and> name \<noteq> []
        \<and> full = path_join (UPLOAD_DIR rt) name \<and> fs (fst full) \<noteq> Some Dir
        \<and> fs1 = (if existsSync fs full then fs(fst full := None) else fs)
        \<and> board = readBoard rt fs1
        \<and> board' = set_prop (set_prop board ''moodImages''
            (JArr (filter (\<lambda>x. x \<noteq> JStr name) (elems (get_prop board ''moodImages'')))))
            ''updatedAt'' (JStr (toISOString now))
        \<longrightarrow> (if truthy board \<and> isArray (get_prop board ''moodImages'')
             then (\<forall>out. JSON_stringify rt board' = Some out \<longrightarrow>
                     delete_mood rt now body fs
                       = (Inr ok_response, fs1(fst (DATA_FILE rt) \<mapsto> File out)))
             else delete_mood rt now body fs = (Inr ok_response, fs1))
            \<and> (readBoard rt fs1 = JNull \<longrightarrow>
                  delete_mood rt now body fs = (Inr ok_response, fs1))
            \<and> JStr name \<notin> set (elems (get_prop board' ''moodImages'')))"
proof -
  have a: "delete_mood rt now body fs = (Inr (bad_request ''filename required''), fs)
      \<longleftrightarrow> typeof (get_prop (js_or body (JObj [])) ''filename'') \<noteq> TString
          \<or> get_prop (js_or body (JObj [])) ''filename'' = JStr []"
    using delete_mood_rejects [of body rt now fs] delete_mood_accepts [of body rt now fs]
    by blast
  have b: "(if truthy board \<and> isArray (get_prop board ''moodImages'')
             then (\<forall>out. JSON_stringify rt board' = Some out \<longrightarrow>
                     delete_mood rt now body fs
                       = (Inr ok_response, fs1(fst (DATA_FILE rt) \<mapsto> File out)))
             else delete_mood rt now body fs = (Inr ok_response, fs1))
            \<and> (readBoard rt fs1 = JNull \<longrightarrow>
                  delete_mood rt now body fs = (Inr ok_response, fs1))
            \<and> JStr name \<notin> set (elems (get_prop board' ''moodImages''))"
    if h: "get_prop body ''filename'' = JStr name" "name \<noteq> []"
        "full = path_join (UPLOAD_DIR rt) name" "fs (fst full) \<noteq> Some Dir"
        "fs1 = (if existsSync fs full then fs(fst full := None) else fs)"
        "board = readBoard rt fs1"
        "board' = set_prop (set_prop board ''moodImages''
            (JArr (filter (\<lambda>x. x \<noteq> JStr name) (elems (get_prop board ''moodImages'')))))
            ''updatedAt'' (JStr (toISOString now))"
    for name full fs1 board board'
  proof -
    have step: "(if existsSync fs (path_join (UPLOAD_DIR rt) name)
          then unlinkSync fs (path_join (UPLOAD_DIR rt) name) else Inr fs) = Inr fs1"
    proof -
      have "(if existsSync fs full then unlinkSync fs full else Inr fs) = Inr fs1"
        unfolding h(5) using h(4) by (rule unlink_step)
      then show ?thesis unfolding h(3) .
    qed
    note main = delete_mood_board_step [OF h(1) h(2) step h(6) h(7)]
    have nul: "readBoard rt fs1 = JNull \<longrightarrow> delete_mood rt now body fs = (Inr ok_response, fs1)"
      using main h(6) by auto
    have gone: "JStr name \<notin> set (elems (get_prop board' ''moodImages''))"
    proof (cases board)
      case (JObj kvs)
      then show ?thesis
        by (simp add: h(7) update_conv')
    qed (simp_all add: h(7))
    from main nul gone show ?thesis by blast
  qed
  from a b show ?thesis by blast
qed


lemma set_prop_same:
  assumes "isArray (get_prop board k)"
  shows "set_prop board k (JArr (elems (get_prop board k))) = board"
proof (cases board)
  case (JObj kvs)
  with assms obtain xs where "map_of kvs k = Some (JArr xs)"
    by (cases "map_of kvs k"; cases "get_prop board k") auto
  with JObj show ?thesis by (simp add: update_triv)
qed simp_all

lemma get_set_prop_other:
  assumes "k' \<noteq> k"
  shows "get_prop (set_prop board k w) k' = get_prop board k'"
  using assms by (cases board) (simp_all add: update_conv')

lemma get_set_prop_same:
  assumes "isArray (get_prop board j)"
  shows "get_prop (set_prop board k w) k = w"
  using assms by (cases board) (simp_all add: update_conv')

text \<open>
  Claim C5, as the code has it. Let the filename be a string that is not empty, such
  that nothing exists at the path that \<^verbatim>\<open>path.join\<close> makes of the upload directory
  and the filename (this path, not the name read as an entry of the upload directory,
  is what the handler tests), and that is no element of the stored \<^verbatim>\<open>moodImages\<close>.
  If the document read is truthy and its \<^verbatim>\<open>moodImages\<close> is an array, then the
  document with \<^verbatim>\<open>updatedAt\<close> set to the current time and every other property as
  it was is written back, and the request is acknowledged, whenever
  \<^verbatim>\<open>JSON.stringify\<close> gives a text for that document; otherwise the request is
  acknowledged and the file system is left as it was.
\<close>

theorem delete_mood_absent_name:
  assumes "get_prop body ''filename'' = JStr name" and "name \<noteq> []"
    and "\<not> existsSync fs (path_join (UPLOAD_DIR rt) name)"
    and "board = readBoard rt fs"
    and "JStr name \<notin> set (elems (get_prop board ''moodImages''))"
    and "board' = set_prop board ''updatedAt'' (JStr (toISOString now))"
  shows "(truthy board \<and> isArray (get_prop board ''moodImages'') \<longrightarrow>
           (\<forall>out. JSON_stringify rt board' = Some out \<longrightarrow>
              delete_mood rt now body fs
                = (Inr ok_response, fs(fst (DATA_FILE rt) \<mapsto> File out)))
           \<and> (\<forall>k. k \<noteq> ''updatedAt'' \<longrightarrow> get_prop board' k = get_prop board k)
           \<and> get_prop board' ''updatedAt'' = JStr (toISOString now))
    \<and> (\<not> (truthy board \<and> isArray (get_prop board ''moodImages'')) \<longrightarrow>
           delete_mood rt now body fs = (Inr ok_response, fs))"
proof -
  let ?b1 = "set_prop board ''moodImages''
      (JArr (filter (\<lambda>x. x \<noteq> JStr name) (elems (get_prop board ''moodImages''))))"
  have step: "(if existsSync fs (path_join (UPLOAD_DIR rt) name)
          then unlinkSync fs (path_join (UPLOAD_DIR rt) name) else Inr fs) = Inr fs"
    using assms(3) by simp
  have keep: "filter (\<lambda>x. x \<noteq> JStr name) (elems (get_prop board ''moodImages''))
      = elems (get_prop board ''moodImages'')"
    using assms(5) by (auto simp: filter_id_conv)
  note main = delete_mood_board_step [OF assms(1) assms(2) step assms(4) refl, where now = now]
  show ?thesis
  proof (cases "truthy board \<and> isArray (get_prop board ''moodImages'')")
    case True
    then have same: "?b1 = board"
      by (simp add: keep set_prop_same)
    have "\<forall>out. JSON_stringify rt board' = Some out \<longrightarrow>
              delete_mood rt now body fs
                = (Inr ok_response, fs(fst (DATA_FILE rt) \<mapsto> File out))"
      using main True by (simp add: keep set_prop_same assms(6))
    moreover have "\<forall>k. k \<noteq> ''updatedAt'' \<longrightarrow> get_prop board' k = get_prop board k"
      by (simp add: assms(6) get_set_prop_other)
    moreover have "get_prop board' ''updatedAt'' = JStr (toISOString now)"
      using True by (simp add: assms(6) get_set_prop_same [where j = "''moodImages''"])
    ultimately show ?thesis using True by blast
  next
    case False
    with main show ?thesis by auto
  qed
qed

text \<open>
  Claim C5 as stated fails: the stored document does change. With the document
  \<^verbatim>\<open>{updatedAt: "2026-01-01T00:00:00.000Z", moodImages: ["a.png"]}\<close> in the store and no
  file \<^verbatim>\<open>ghost.png\<close> anywhere, deleting \<^verbatim>\<open>ghost.png\<close> at noon of 2 November 2026 is
  acknowledged and leaves a document whose \<^verbatim>\<open>updatedAt\<close> is that moment. It also
  fails for a filename that leaves the upload directory: in the same store the upload
  directory \<^verbatim>\<open>/srv/app/uploads\<close> is empty and \<^verbatim>\<open>../data/vision-board.txt\<close> is no element of
  \<^verbatim>\<open>moodImages\<close>, but the path joined from it is the backing file, which exists;
  the request is acknowledged and leaves no document at all.
\<close>

theorem delete_mood_updatedAt_counterexample:
  "fst (delete_mood nodejs noon (JObj [(''filename'', JStr ''ghost.png'')])
         (store_of (JObj [(''updatedAt'', JStr ''2026-01-01T00:00:00.000Z''),
                          (''moodImages'', JArr [JStr ''a.png''])])))
     = Inr ok_response
   \<and> \<not> existsSync
         (store_of (JObj [(''updatedAt'', JStr ''2026-01-01T00:00:00.000Z''),
                          (''moodImages'', JArr [JStr ''a.png''])]))
         (path_join (UPLOAD_DIR nodejs) ''ghost.png'')
   \<and> readBoard nodejs
         (store_of (JObj [(''updatedAt'', JStr ''2026-01-01T00:00:00.000Z''),
                          (''moodImages'', JArr [JStr ''a.png''])]))
       = JObj [(''updatedAt'', JStr ''2026-01-01T00:00:00.000Z''),
               (''moodImages'', JArr [JStr ''a.png''])]
   \<and> readBoard nodejs
         (snd (delete_mood nodejs noon (JObj [(''filename'', JStr ''ghost.png'')])
            (store_of (JObj [(''updatedAt'', JStr ''2026-01-01T00:00:00.000Z''),
                             (''moodImages'', JArr [JStr ''a.png''])]))))
       = JObj [(''updatedAt'', JStr ''2026-11-02T12:00:00.000Z''),
               (''moodImages'', JArr [JStr ''a.png''])]
   \<and> fst (UPLOAD_DIR nodejs) = [''srv'', ''app'', ''uploads'']
   \<and> dom (store_of (JObj [(''updatedAt'', JStr ''2026-01-01T00:00:00.000Z''),
                          (''moodImages'', JArr [JStr ''a.png''])]))
       = {[''srv'', ''app'', ''public''], [''srv'', ''app'', ''data''],
          [''srv'', ''app'', ''uploads''], [''srv'', ''app'', ''data'', ''vision-board.txt'']}
   \<and> path_join (UPLOAD_DIR nodejs) ''../data/vision-board.txt'' = DATA_FILE nodejs
   \<and> existsSync
         (store_of (JObj [(''updatedAt'', JStr ''2026-01-01T00:00:00.000Z''),
                          (''moodImages'', JArr [JStr ''a.png''])]))
         (path_join (UPLOAD_DIR nodejs) ''../data/vision-board.txt'')
   \<and> fst (delete_mood nodejs noon (JObj [(''filename'', JStr ''../data/vision-board.txt'')])
         (store_of (JObj [(''updatedAt'', JStr ''2026-01-01T00:00:00.000Z''),
                          (''moodImages'', JArr [JStr ''a.png''])])))
     = Inr ok_response
   \<and> readBoard nodejs
         (snd (delete_mood nodejs noon (JObj [(''filename'', JStr ''../data/vision-board.txt'')])
            (store_of (JObj [(''updatedAt'', JStr ''2026-01-01T00:00:00.000Z''),
                             (''moodImages'', JArr [JStr ''a.png''])]))))
       = JNull"
proof -
  let ?old = "JObj [(''updatedAt'', JStr ''2026-01-01T00:00:00.000Z''),
                    (''moodImages'', JArr [JStr ''a.png''])]"
  let ?ghost = "JObj [(''filename'', JStr ''ghost.png'')]"
  let ?up = "JObj [(''filename'', JStr ''../data/vision-board.txt'')]"
  have a: "fst (delete_mood nodejs noon ?ghost (store_of ?old)) = Inr ok_response"
    by code_simp
  have b: "\<not> existsSync (store_of ?old) (path_join (UPLOAD_DIR nodejs) ''ghost.png'')"
    by code_simp
  have c: "readBoard nodejs (store_of ?old) = ?old"
    by code_simp
  have d: "readBoard nodejs (snd (delete_mood nodejs noon ?ghost (store_of ?old)))
       = JObj [(''updatedAt'', JStr ''2026-11-02T12:00:00.000Z''),
               (''moodImages'', JArr [JStr ''a.png''])]"
    by code_simp
  have e: "fst (UPLOAD_DIR nodejs) = [''srv'', ''app'', ''uploads'']"
    by (simp add: UPLOAD_DIR_segments nodejs_def)
  have e': "dom (store_of ?old)
       = {[''srv'', ''app'', ''public''], [''srv'', ''app'', ''data''],
          [''srv'', ''app'', ''uploads''], [''srv'', ''app'', ''data'', ''vision-board.txt'']}"
    by (auto simp add: store_of_def fresh_def UPLOAD_DIR_segments DATA_FILE_segments
        PUBLIC_DIR_def DATA_DIR_def path_join_def norm_step_def nodejs_def)
  have f: "path_join (UPLOAD_DIR nodejs) ''../data/vision-board.txt'' = DATA_FILE nodejs"
    by (simp add: UPLOAD_DIR_segments DATA_FILE_segments path_join_def norm_step_def)
  have g: "existsSync (store_of ?old) (path_join (UPLOAD_DIR nodejs) ''../data/vision-board.txt'')"
    by code_simp
  have h: "fst (delete_mood nodejs noon ?up (store_of ?old)) = Inr ok_response"
    by code_simp
  have i: "readBoard nodejs (snd (delete_mood nodejs noon ?up (store_of ?old))) = JNull"
    by code_simp
  from a b c d e e' f g h i show ?thesis by blast
qed


theorem delete_mood_unlinks_joined_path_witness:
  "store_of (JObj []) (fst (DATA_FILE nodejs)) = Some (File ''{}'')
   \<and> delete_mood nodejs noon (JObj [(''filename'', JStr ''../data/vision-board.txt'')])
       (store_of (JObj []))
     = (Inr ok_response, (store_of (JObj []))(fst (DATA_FILE nodejs) := None))"
proof -
  let ?name = "''../data/vision-board.txt''"
  let ?body = "JObj [(''filename'', JStr ?name)]"
  have j: "path_join (UPLOAD_DIR nodejs) ?name = DATA_FILE nodejs"
    by (simp add: UPLOAD_DIR_segments DATA_FILE_segments path_join_def norm_step_def)
  have f: "store_of (JObj []) (fst (DATA_FILE nodejs)) = Some (File ''{}'')"
    by (simp add: store_of_def all_undefined_def)
  have st: "stat (store_of (JObj [])) (path_join (UPLOAD_DIR nodejs) ?name) = Inr (File ''{}'')"
    using f by (simp add: j stat_def DATA_FILE_segments)
  show ?thesis
    using delete_mood_unlinks_joined_path [where body = "?body" and name = "?name"
        and full = "path_join (UPLOAD_DIR nodejs) ?name" and fs = "store_of (JObj [])"
        and rt = nodejs and c = "''{}''" and now = noon] st j f
    by simp
qed

text \<open>
  Claim C4 as stated fails in two ways. The empty string is a filename that is present
  and is a string, and the request is answered with 400. And the filename \<^verbatim>\<open>.\<close> is
  accepted, joins to the upload directory itself, which exists, and removing it throws:
  the request ends in an error, not in an acknowledgment.
\<close>

theorem delete_mood_contract_counterexample:
  "typeof (JStr []) = TString
   \<and> delete_mood nodejs noon (JObj [(''filename'', JStr [])]) (fresh nodejs)
       = (Inr (bad_request ''filename required''), fresh nodejs)
   \<and> status (bad_request ''filename required'') = 400
   \<and> fst (delete_mood nodejs noon (JObj [(''filename'', JStr ''.'')]) (fresh nodejs)) = Inl EISDIR"
proof -
  have "fst (delete_mood nodejs noon (JObj [(''filename'', JStr ''.'')]) (fresh nodejs)) = Inl EISDIR"
    by code_simp
  then show ?thesis
    by (simp add: delete_mood_rejects js_or_def bad_request_def)
qed

theorem delete_mood_contract_witness:
  "delete_mood nodejs noon (JObj [(''filename'', JStr ''a.png'')])
     ((store_of (JObj [(''moodImages'', JArr [JStr ''a.png'', JStr ''b.png''])]))
        (fst (path_join (UPLOAD_DIR nodejs) ''a.png'') \<mapsto> File ''PNG''))
   = (Inr ok_response,
      ((store_of (JObj [(''moodImages'', JArr [JStr ''a.png'', JStr ''b.png''])]))
        (fst (path_join (UPLOAD_DIR nodejs) ''a.png'') := None))
        (fst (DATA_FILE nodejs) \<mapsto> File (ser 0 (JObj
           [(''moodImages'', JArr [JStr ''b.png'']),
            (''updatedAt'', JStr ''2026-11-02T12:00:00.000Z'')]))))"
proof -
  let ?body = "JObj [(''filename'', JStr ''a.png'')]"
  let ?old = "JObj [(''moodImages'', JArr [JStr ''a.png'', JStr ''b.png''])]"
  let ?new = "JObj [(''moodImages'', JArr [JStr ''b.png'']),
            (''updatedAt'', JStr ''2026-11-02T12:00:00.000Z'')]"
  let ?full = "path_join (UPLOAD_DIR nodejs) ''a.png''"
  let ?fs = "(store_of ?old)(fst ?full \<mapsto> File ''PNG'')"
  let ?fs1 = "?fs(fst ?full := None)"
  have e: "existsSync ?fs ?full" by code_simp
  have r: "readBoard nodejs ?fs1 = ?old" by code_simp
  note t = noon_iso
  have s: "JSON_stringify nodejs ?new = Some (ser 0 ?new)" by (simp add: nodejs_def stringify_def)
  note inst = delete_mood_contract [of nodejs noon "?body" "?fs", THEN conjunct2, rule_format,
      of "''a.png''" "?full" "?fs1" "?old"
         "set_prop (set_prop ?old ''moodImages''
            (JArr (filter (\<lambda>x. x \<noteq> JStr ''a.png'') (elems (get_prop ?old ''moodImages'')))))
            ''updatedAt'' (JStr (toISOString noon))"]
  show ?thesis
    using inst e r t s by simp
qed

theorem delete_mood_absent_name_witness:
  "delete_mood nodejs noon (JObj [(''filename'', JStr ''ghost.png'')])
     (store_of (JObj [(''updatedAt'', JStr ''2026-01-01T00:00:00.000Z''),
                      (''moodImages'', JArr [JStr ''a.png''])]))
   = (Inr ok_response,
      (store_of (JObj [(''updatedAt'', JStr ''2026-01-01T00:00:00.000Z''),
                       (''moodImages'', JArr [JStr ''a.png''])]))
        (fst (DATA_FILE nodejs) \<mapsto> File (ser 0 (JObj
           [(''updatedAt'', JStr ''2026-11-02T12:00:00.000Z''),
            (''moodImages'', JArr [JStr ''a.png''])]))))"
proof -
  let ?body = "JObj [(''filename'', JStr ''ghost.png'')]"
  let ?old = "JObj [(''updatedAt'', JStr ''2026-01-01T00:00:00.000Z''),
                      (''moodImages'', JArr [JStr ''a.png''])]"
  let ?new = "JObj [(''updatedAt'', JStr ''2026-11-02T12:00:00.000Z''),
            (''moodImages'', JArr [JStr ''a.png''])]"
  have e: "\<not> existsSync (store_of ?old) (path_join (UPLOAD_DIR nodejs) ''ghost.png'')"
    by code_simp
  have r: "readBoard nodejs (store_of ?old) = ?old" by code_simp
  note t = noon_iso
  have s: "JSON_stringify nodejs ?new = Some (ser 0 ?new)" by (simp add: nodejs_def stringify_def)
  show ?thesis
    using delete_mood_absent_name [where body = "?body" and name = "''ghost.png''"
        and fs = "store_of ?old" and rt = nodejs and board = "?old" and now = noon
        and board' = "set_prop ?old ''updatedAt'' (JStr (toISOString noon))"] e r t s
    by simp
qed

section \<open>Arithmetic in doubles\<close>



















section \<open>Naming an upload\<close>




lemma safeExt_allowed: "safeExt orig \<in> {''.png'', ''.jpg'', ''.jpeg'', ''.webp'', ''.gif''}"
  by (simp add: safeExt_def Let_def)




section \<open>Answering an upload\<close>

lemma split_slash_plain: "CHR ''/'' \<notin> set s \<Longrightarrow> split_slash s = [s]"
  by (induction s) auto

lemma no_slash_digits: "CHR ''/'' \<notin> set (digits n)"
  using digits_set [of n] by auto

lemma no_slash_padStart: "CHR ''/'' \<notin> set (padStart w (digits n))"
  using padStart_set [of w n] by auto

lemma no_slash_iso: "CHR ''/'' \<notin> set (toISOString now)"
  by (simp add: toISOString_def no_slash_padStart)

lemma no_slash_show_int: "CHR ''/'' \<notin> set (show_int i)"
  by (simp add: show_int_def no_slash_digits)

lemma no_slash_safeExt: "CHR ''/'' \<notin> set (safeExt orig)"
  using safeExt_allowed [of orig] by auto

lemma no_slash_name: "CHR ''/'' \<notin> set (genMoodFilename now r orig)"
proof -
  have "set (take 14 (filter (\<lambda>c. c \<notin> set ''-:.TZ'') (toISOString now)))
      \<subseteq> set (toISOString now)"
    using set_take_subset [of 14 "filter (\<lambda>c. c \<notin> set ''-:.TZ'') (toISOString now)"]
    by auto
  then have "CHR ''/'' \<notin> set (take 14 (filter (\<lambda>c. c \<notin> set ''-:.TZ'') (toISOString now)))"
    using no_slash_iso [of now] by blast
  then show ?thesis
    unfolding genMoodFilename_def Let_def
    using no_slash_show_int [of "\<lfloor>add64 1000 (mul64 r 9000)\<rfloor>"] no_slash_safeExt [of orig]
    by simp
qed

lemma storage_path_segments:
  "fst (storage_path rt now r orig) = dirname rt @ [''uploads'', genMoodFilename now r orig]"
proof -
  obtain rest where name: "genMoodFilename now r orig = CHR ''m'' # rest"
    by (simp add: genMoodFilename_def Let_def)
  have "split_slash (genMoodFilename now r orig) = [genMoodFilename now r orig]"
    by (rule split_slash_plain [OF no_slash_name])
  then show ?thesis
    by (simp add: storage_path_def storage_destination_def storage_filename_def
        UPLOAD_DIR_segments path_join_def norm_step_def name)
qed

text \<open>
  Claim C9. \<^verbatim>\<open>POST /api/upload-mood\<close> answers with status 200 and the body
  \<^verbatim>\<open>{ok: true, files: [...]}\<close>, where \<^verbatim>\<open>files\<close> holds, for each stored file in order,
  its stored name and the URL \<^verbatim>\<open>/uploads/\<close> followed by that name. Without files
  (\<^verbatim>\<open>req.files\<close> undefined or empty) the list is empty and the answer is the same
  acknowledgment. The handler leaves the file system as it finds it, and the path under
  which the storage writes an upload is never the backing file of the board document.
\<close>

theorem upload_mood_response:
  "upload_mood (Some files) fs
     = (Inr \<lparr>status = 200,
             payload = JObj [(''ok'', JBool True),
               (''files'', JArr (map (\<lambda>f. JObj [(''filename'', JStr (filename f)),
                                                 (''url'', JStr (''/uploads/'' @ filename f))])
                                   files))]\<rparr>,
        fs)
   \<and> upload_mood None fs
     = (Inr \<lparr>status = 200, payload = JObj [(''ok'', JBool True), (''files'', JArr [])]\<rparr>, fs)
   \<and> upload_mood (Some []) fs
     = (Inr \<lparr>status = 200, payload = JObj [(''ok'', JBool True), (''files'', JArr [])]\<rparr>, fs)
   \<and> snd (upload_mood req_files fs) = fs
   \<and> fst (storage_path rt now r orig) \<noteq> fst (DATA_FILE rt)"
  by (simp add: upload_mood_def storage_path_segments DATA_FILE_segments)

theorem upload_mood_response_witness:
  "upload_mood (Some [\<lparr>originalname = Some ''photo.png'',
                        filename = ''mood_20261102120000_5500.png''\<rparr>]) (fresh nodejs)
     = (Inr \<lparr>status = 200,
             payload = JObj [(''ok'', JBool True),
               (''files'', JArr [JObj [(''filename'', JStr ''mood_20261102120000_5500.png''),
                  (''url'', JStr ''/uploads/mood_20261102120000_5500.png'')]])]\<rparr>,
        fresh nodejs)"
  using upload_mood_response [of "[\<lparr>originalname = Some ''photo.png'',
      filename = ''mood_20261102120000_5500.png''\<rparr>]" "fresh nodejs" None nodejs noon 0 None]
  by simp

section \<open>Writing and reading back\<close>

subsection \<open>String literals\<close>

lemma hex_val_hex_digit: "k < 16 \<Longrightarrow> hex_val (hex_digit k) = Some k"
proof -
  assume "k < 16"
  then have "k = 0 \<or> k = 1 \<or> k = 2 \<or> k = 3 \<or> k = 4 \<or> k = 5 \<or> k = 6 \<or> k = 7 \<or> k = 8
      \<or> k = 9 \<or> k = 10 \<or> k = 11 \<or> k = 12 \<or> k = 13 \<or> k = 14 \<or> k = 15"
    by arith
  then show ?thesis
    by (elim disjE) (simp_all add: hex_val_def hex_digit_def)
qed

lemma unicode_escape_low:
  assumes "(of_char c :: nat) < 32"
  shows "unicode_escape [CHR ''0'', CHR ''0'', hex_digit (of_char c div 16),
           hex_digit (of_char c mod 16)] = Some [c]"
proof -
  let ?n = "of_char c :: nat"
  have a: "hex_val (hex_digit (?n div 16)) = Some (?n div 16)"
    using assms by (intro hex_val_hex_digit) simp
  have b: "hex_val (hex_digit (?n mod 16)) = Some (?n mod 16)"
    by (intro hex_val_hex_digit) simp
  have z: "hex_val CHR ''0'' = Some 0" by (simp add: hex_val_def)
  have "?n div 16 * 16 + ?n mod 16 = ?n" by simp
  then show ?thesis
    using assms by (simp add: unicode_escape_def a b z utf8_def)
qed

lemma p_str_esc: "p_str (esc c @ t) = map_option (apfst ((#) c)) (p_str t)"
proof (cases "(of_char c :: nat) < 32")
  case True
  then have ne: "c \<noteq> CHR 0x22" "c \<noteq> CHR 0x5C" by auto
  have one: "(@) [c] = (#) c" by (rule ext) simp
  show ?thesis
    using True ne by (auto simp: esc_def unescape_def unicode_escape_low one)
next
  case False
  then show ?thesis
    by (auto simp: esc_def unescape_def)
qed

lemma p_str_quote: "p_str (concat (map esc s) @ CHR 0x22 # rest) = Some (s, rest)"
  by (induction s) (simp_all add: p_str_esc)

subsection \<open>Numbers\<close>

lemma digits_nonempty: "digits n \<noteq> []"
  by (subst digits.simps) simp

lemma digits_small: "n < 10 \<Longrightarrow> digits n = [''0123456789'' ! n]"
  by (subst digits.simps) simp

lemma digits_large: "\<not> n < 10 \<Longrightarrow> digits n = digits (n div 10) @ [''0123456789'' ! (n mod 10)]"
  by (subst digits.simps) simp

lemma below_ten:
  assumes "k < 10"
  shows "k = 0 \<or> k = 1 \<or> k = 2 \<or> k = 3 \<or> k = 4 \<or> k = 5 \<or> k = 6 \<or> k = 7 \<or> k = 8 \<or> k = (9::nat)"
  using assms by arith

lemma digit_val_nth: "k < 10 \<Longrightarrow> digit_val (''0123456789'' ! k) = k"
  by (drule below_ten) (auto simp: digit_val_def)

lemma digit_nth_nonzero: "0 < k \<Longrightarrow> k < 10 \<Longrightarrow> ''0123456789'' ! k \<noteq> CHR ''0''"
  by (drule below_ten) auto

lemma digits_value: "foldl (\<lambda>a c. 10 * a + digit_val c) 0 (digits n) = n"
proof (induction n rule: digits.induct)
  case (1 n)
  show ?case
  proof (cases "n < 10")
    case True
    then show ?thesis by (simp add: digits_small digit_val_nth)
  next
    case False
    with "1.IH" show ?thesis by (simp add: digits_large digit_val_nth)
  qed
qed

lemma hd_digits: "0 < n \<Longrightarrow> hd (digits n) \<noteq> CHR ''0''"
proof (induction n rule: digits.induct)
  case (1 n)
  show ?case
  proof (cases "n < 10")
    case True
    with "1.prems" have "''0123456789'' ! n \<noteq> CHR ''0''" by (rule digit_nth_nonzero)
    then show ?thesis by (simp only: digits_small [OF True] list.sel simp_thms)
  next
    case False
    then have "0 < n div 10" by simp
    with "1.IH" False have "hd (digits (n div 10)) \<noteq> CHR ''0''" by simp
    with False show ?thesis by (simp add: digits_large digits_nonempty)
  qed
qed

lemma no_leading_zero: "\<not> (1 < length (digits n) \<and> hd (digits n) = CHR ''0'')"
proof (cases "n < 10")
  case True
  then show ?thesis by (simp add: digits_small)
next
  case False
  then have "0 < n" by simp
  then show ?thesis using hd_digits by blast
qed

lemma digits_all: "\<forall>c \<in> set (digits n). is_digit c"
  unfolding is_digit_def using digits_set by (rule subsetD [THEN ballI])

lemma hd_digits_digit: "is_digit (hd (digits n))"
  using digits_all [of n] digits_nonempty [of n] by (cases "digits n") auto

lemma takeWhile_digits:
  assumes "ends_number rest"
  shows "takeWhile is_digit (digits n @ rest) = digits n"
    and "dropWhile is_digit (digits n @ rest) = rest"
proof -
  have t: "takeWhile is_digit rest = []" and d: "dropWhile is_digit rest = rest"
    using assms by (cases rest; simp add: ends_number_def)+
  show "takeWhile is_digit (digits n @ rest) = digits n"
    using digits_all [of n] by (simp add: takeWhile_append2 t)
  show "dropWhile is_digit (digits n @ rest) = rest"
    using digits_all [of n] by (simp add: dropWhile_append2 d)
qed

lemma p_num_digits:
  assumes "ends_number rest"
  shows "p_num (digits n @ rest) = Some (JNum (int n), rest)"
proof -
  have "hd (digits n @ rest) \<noteq> CHR ''-''"
    using hd_digits_digit [of n] digits_nonempty [of n] by (auto simp: is_digit_def)
  moreover have "\<not> (rest \<noteq> [] \<and> hd rest \<in> set ''.eE'')"
    using assms by (auto simp: ends_number_def)
  ultimately show ?thesis
    using no_leading_zero [of n]
    apply (simp only: p_num_def Let_def simp_thms if_False takeWhile_digits [OF assms] digits_value)
    apply (simp add: digits_nonempty)
    done
qed

lemma p_num_show_int:
  assumes "ends_number rest"
  shows "p_num (show_int i @ rest) = Some (JNum i, rest)"
proof (cases "i < 0")
  case False
  then show ?thesis
    using p_num_digits [OF assms, of "nat i"] by (simp add: show_int_def)
next
  case True
  have "\<not> (rest \<noteq> [] \<and> hd rest \<in> set ''.eE'')"
    using assms by (auto simp: ends_number_def)
  then show ?thesis
    using True no_leading_zero [of "nat (- i)"]
    apply (simp only: show_int_def p_num_def Let_def if_True append_Cons list.sel simp_thms
        list.distinct not_False_eq_True takeWhile_digits [OF assms] digits_value)
    apply (simp add: digits_nonempty)
    done
qed

subsection \<open>Layout\<close>

lemma skip_ws_nl: "skip_ws (nl n @ s) = skip_ws s"
proof -
  have "\<forall>c \<in> set (nl n). json_ws c" by (auto simp: nl_def json_ws_def)
  then show ?thesis by (simp add: skip_ws_def dropWhile_append2)
qed

lemma skip_ws_space: "skip_ws (CHR '' '' # s) = skip_ws s"
  by (simp add: skip_ws_def json_ws_def)

lemma skip_ws_stop: "\<not> json_ws c \<Longrightarrow> skip_ws (c # s) = c # s"
  by (simp add: skip_ws_def)

lemma value_start_not_ws: "value_start c \<Longrightarrow> \<not> json_ws c"
  by (auto simp: value_start_def json_ws_def)

lemma show_int_start: "\<exists>c cs. show_int i = c # cs \<and> value_start c"
proof (cases "i < 0")
  case True
  then show ?thesis by (simp add: show_int_def value_start_def)
next
  case False
  obtain c cs where d: "digits (nat i) = c # cs"
    using digits_nonempty [of "nat i"] by (cases "digits (nat i)") auto
  then have "is_digit c" using digits_all [of "nat i"] by simp
  then have "value_start c" by (auto simp: is_digit_def value_start_def)
  with False d show ?thesis by (simp add: show_int_def)
qed

lemma ser_start: "\<exists>c cs. ser n v = c # cs \<and> value_start c"
proof (cases v)
  case (JNum i)
  then show ?thesis using show_int_start [of i] by simp
qed (auto simp: value_start_def quote_def)

lemma ser_elems_start: "xs \<noteq> [] \<Longrightarrow> \<exists>c cs. ser_elems n xs = c # cs \<and> value_start c"
proof (cases xs)
  case (Cons x xs')
  obtain c cs where "ser n x = c # cs" "value_start c" using ser_start by blast
  with Cons show ?thesis by simp
qed simp

lemma last_digits: "is_digit (last (digits n))"
  using digits_all [of n] digits_nonempty [of n] last_in_set by blast

lemma show_int_end: "show_int i \<noteq> [] \<and> value_end (last (show_int i))"
proof -
  have "value_end (last (digits k))" for k
    using last_digits [of k] by (auto simp: is_digit_def value_end_def)
  then show ?thesis by (simp add: show_int_def digits_nonempty)
qed

lemma ser_end: "ser n v \<noteq> [] \<and> value_end (last (ser n v))"
proof (cases v)
  case (JNum i)
  then show ?thesis using show_int_end [of i] by simp
qed (auto simp: value_end_def quote_def)

subsection \<open>Objects without repeated keys\<close>

lemma update_fresh: "k \<notin> fst ` set al \<Longrightarrow> AList.update k v al = al @ [(k, v)]"
  by (induction al) auto

lemma fold_update_distinct:
  assumes "distinct (map fst ms)" and "fst ` set acc \<inter> fst ` set ms = {}"
  shows "foldl (\<lambda>acc kv. AList.update (fst kv) (snd kv) acc) acc ms = acc @ ms"
  using assms
proof (induction ms arbitrary: acc)
  case Nil
  then show ?case by simp
next
  case (Cons kv ms)
  have fresh: "fst kv \<notin> fst ` set acc" using Cons.prems(2) by auto
  have "fst ` set (acc @ [kv]) \<inter> fst ` set ms = {}"
    using Cons.prems by auto
  with Cons.IH [of "acc @ [kv]"] Cons.prems(1) fresh show ?case
    by (simp add: update_fresh)
qed

lemma obj_of_distinct: "distinct (map fst kvs) \<Longrightarrow> obj_of kvs = JObj kvs"
  using fold_update_distinct [of kvs "[]"] by (simp add: obj_of_def)

lemma all_undefined_none:
  assumes "\<forall>kv \<in> set kvs. snd kv \<noteq> JUndefined"
  shows "all_undefined kvs \<longleftrightarrow> kvs = []"
  using assms by (cases kvs) (auto simp: all_undefined_def)

subsection \<open>Parsing what was printed\<close>

lemma ends_number_intro: "\<not> is_digit c \<Longrightarrow> c \<notin> set ''.eE'' \<Longrightarrow> ends_number (c # s)"
  by (simp add: ends_number_def)

lemma ends_number_nl: "ends_number (nl m @ s)"
  by (simp add: ends_number_def nl_def is_digit_def)

lemma ends_number_comma: "ends_number (CHR '','' # s)"
  by (simp add: ends_number_def is_digit_def)

lemma p_elems_printed:
  assumes IH: "\<And>x k g r. x \<in> set xs \<Longrightarrow> length (ser k x) < g \<Longrightarrow> ends_number r
      \<Longrightarrow> p_val g (ser k x @ r) = Some (x, r)"
    and "xs \<noteq> []" and "length (ser_elems n xs) < f"
  shows "p_elems (Suc f) (ser_elems n xs @ nl m @ CHR '']'' # rest) = Some (xs, rest)"
  using assms
proof (induction xs arbitrary: f)
  case Nil
  then show ?case by simp
next
  case (Cons x xs)
  show ?case
  proof (cases "xs = []")
    case True
    have "length (ser n x) < f" using Cons.prems(3) True by simp
    then have "p_val f (ser n x @ nl m @ CHR '']'' # rest) = Some (x, nl m @ CHR '']'' # rest)"
      by (intro Cons.prems(1)) (simp_all add: ends_number_nl)
    then show ?thesis
      using True by (simp add: skip_ws_nl skip_ws_stop json_ws_def)
  next
    case False
    let ?tail = "ser_elems n xs @ nl m @ CHR '']'' # rest"
    obtain c cs where start: "ser_elems n xs = c # cs" "value_start c"
      using ser_elems_start [OF False] by blast
    have lx: "length (ser n x) < f" using Cons.prems(3) by simp
    have "p_val f (ser n x @ CHR '','' # nl n @ ?tail) = Some (x, CHR '','' # nl n @ ?tail)"
      using lx by (intro Cons.prems(1)) (simp_all add: ends_number_comma)
    then have head: "p_val f (ser n (x) @ ('','' @ nl n) @ ?tail) = Some (x, CHR '','' # nl n @ ?tail)"
      by simp
    have skip: "skip_ws (nl n @ ?tail) = ?tail"
      using start by (simp add: skip_ws_nl skip_ws_stop value_start_not_ws)
    obtain f' where f: "f = Suc f'" using lx by (cases f) auto
    have "length (ser_elems n xs) < f'"
      using Cons.prems(3) False f ser_start [of n x] by (auto simp: nl_def)
    then have "p_elems (Suc f') ?tail = Some (xs, rest)"
      using Cons.prems(1) False by (intro Cons.IH) simp_all
    then have tail: "p_elems f ?tail = Some (xs, rest)"
      unfolding f .
    show ?thesis
      using False head skip tail
      by (simp add: skip_ws_stop json_ws_def del: p_elems.simps p_val.simps
          add: p_elems.simps(2) [of f "ser n x @ CHR '','' # nl n @ ?tail"])
  qed
qed


lemma p_members_printed:
  assumes IH: "\<And>kv k g r. kv \<in> set kvs \<Longrightarrow> length (ser k (snd kv)) < g \<Longrightarrow> ends_number r
      \<Longrightarrow> p_val g (ser k (snd kv) @ r) = Some (snd kv, r)"
    and "kvs \<noteq> []" and "\<forall>kv \<in> set kvs. snd kv \<noteq> JUndefined"
    and "length (ser_members n kvs) < f"
  shows "p_members (Suc f) (ser_members n kvs @ nl m @ CHR ''}'' # rest) = Some (kvs, rest)"
  using assms
proof (induction kvs arbitrary: f)
  case Nil
  then show ?case by simp
next
  case (Cons kv kvs)
  obtain k v where kv: "kv = (k, v)" by (cases kv)
  have v: "v \<noteq> JUndefined" using Cons.prems(3) kv by simp
  have rest_defined: "\<forall>kv \<in> set kvs. snd kv \<noteq> JUndefined" using Cons.prems(3) by simp
  note none = all_undefined_none [OF rest_defined]
  have key: "p_str (concat (map esc k) @ CHR 0x22 # r) = Some (k, r)" for r
    by (rule p_str_quote)
  show ?case
  proof (cases "kvs = []")
    case True
    have lv: "length (ser n v) < f"
      using Cons.prems(4) True kv v by (simp add: all_undefined_def)
    have "p_val f (ser n (snd kv) @ nl m @ CHR ''}'' # rest)
        = Some (snd kv, nl m @ CHR ''}'' # rest)"
      using lv kv by (intro Cons.prems(1)) (simp_all add: ends_number_nl)
    then have val: "p_val f (ser n v @ nl m @ CHR ''}'' # rest) = Some (v, nl m @ CHR ''}'' # rest)"
      using kv by simp
    obtain c cs where start: "ser n v = c # cs" "value_start c"
      using ser_start by blast
    have skip: "skip_ws (ser n v @ nl m @ CHR ''}'' # rest) = ser n v @ nl m @ CHR ''}'' # rest"
      using start by (simp add: skip_ws_stop value_start_not_ws)
    show ?thesis
      using True kv v val skip
      by (simp add: quote_def key skip_ws_space skip_ws_nl skip_ws_stop json_ws_def
          all_undefined_def del: p_val.simps)
  next
    case False
    let ?tail = "ser_members n kvs @ nl m @ CHR ''}'' # rest"
    have lv: "length (ser n v) < f"
      using Cons.prems(4) kv v by simp
    have "p_val f (ser n (snd kv) @ CHR '','' # nl n @ ?tail)
        = Some (snd kv, CHR '','' # nl n @ ?tail)"
      using lv kv by (intro Cons.prems(1)) (simp_all add: ends_number_comma)
    then have val: "p_val f (ser n v @ CHR '','' # nl n @ ?tail) = Some (v, CHR '','' # nl n @ ?tail)"
      using kv by simp
    obtain c cs where start: "ser n v = c # cs" "value_start c"
      using ser_start by blast
    have skip: "skip_ws (ser n v @ CHR '','' # nl n @ ?tail) = ser n v @ CHR '','' # nl n @ ?tail"
      using start by (simp add: skip_ws_stop value_start_not_ws)
    obtain kv' kvs' where next_kv: "kvs = kv' # kvs'" using False by (cases kvs) auto
    have "snd kv' \<noteq> JUndefined" using rest_defined next_kv by simp
    then have mstart: "ser_members n kvs = CHR 0x22 # tl (ser_members n kvs)"
      using next_kv by (simp add: quote_def)
    have skip2: "skip_ws (nl n @ ?tail) = ?tail"
      by (subst (1 2) mstart) (simp add: skip_ws_nl skip_ws_stop json_ws_def)
    obtain f' where f: "f = Suc f'" using lv by (cases f) auto
    have "length (ser_members n kvs) < f'"
      using Cons.prems(4) False f kv v none start by (auto simp: nl_def quote_def)
    then have "p_members (Suc f') ?tail = Some (kvs, rest)"
      using Cons.prems(1) False rest_defined by (intro Cons.IH) simp_all
    then have tail: "p_members f ?tail = Some (kvs, rest)"
      unfolding f .
    show ?thesis
      using False kv v val skip skip2 tail none
      by (simp add: quote_def key skip_ws_space skip_ws_stop json_ws_def
          del: p_val.simps p_members.simps
          add: p_members.simps(2) [of f "CHR 0x22 # concat (map esc k) @ CHR 0x22 # CHR '':'' # CHR '' '' # ser n v @ CHR '','' # nl n @ ?tail"])
  qed
qed

lemma value_start_other:
  assumes "value_start c"
  shows "c \<noteq> CHR '']''" and "c \<noteq> CHR ''}''"
  using assms by (auto simp: value_start_def)

lemma p_val_printed:
  assumes "json_value v" and "length (ser n v) < f" and "ends_number rest"
  shows "p_val f (ser n v @ rest) = Some (v, rest)"
  using assms
proof (induction v arbitrary: n f rest)
  case JUndefined
  then show ?case by simp
next
  case JNull
  then obtain f' where "f = Suc f'" by (cases f) auto
  then show ?case by simp
next
  case (JBool b)
  then obtain f' where "f = Suc f'" by (cases f) auto
  then show ?case by simp
next
  case (JNum i)
  then obtain f' where f: "f = Suc f'" by (cases f) auto
  obtain c cs where start: "show_int i = c # cs" "value_start c"
    using show_int_start by blast
  have "c = CHR ''-'' \<or> is_digit c"
  proof (cases "i < 0")
    case True
    with start(1) show ?thesis by (simp add: show_int_def)
  next
    case False
    with start(1) have "c = hd (digits (nat i))" by (simp add: show_int_def)
    then show ?thesis using hd_digits_digit by simp
  qed
  then have c: "c \<noteq> CHR ''{''" "c \<noteq> CHR ''[''" "c \<noteq> CHR 0x22" "c \<noteq> CHR ''t''"
      "c \<noteq> CHR ''f''" "c \<noteq> CHR ''n''"
    by (auto simp: is_digit_def)
  have "p_val (Suc f') (c # cs @ rest) = p_num (c # cs @ rest)"
    using c by simp
  then show ?case
    using p_num_show_int [OF JNum.prems(3), of i] start(1) f by simp
next
  case (JStr s)
  then obtain f' where "f = Suc f'" by (cases f) auto
  then show ?case by (simp add: quote_def p_str_quote)
next
  case (JArr xs)
  then obtain f' where f: "f = Suc f'" by (cases f) auto
  show ?case
  proof (cases "xs = []")
    case True
    with f show ?thesis by (simp add: skip_ws_stop json_ws_def)
  next
    case False
    let ?tail = "ser_elems (n + 2) xs @ nl n @ CHR '']'' # rest"
    obtain c cs where start: "ser_elems (n + 2) xs = c # cs" "value_start c"
      using ser_elems_start [OF False] by blast
    have skip: "skip_ws (nl (n + 2) @ ?tail) = c # cs @ nl n @ CHR '']'' # rest"
      using start by (simp add: skip_ws_nl skip_ws_stop value_start_not_ws)
    obtain f'' where f': "f' = Suc f''"
      using JArr.prems(2) False f by (cases f') auto
    have len: "length (ser_elems (n + 2) xs) < f''"
      using JArr.prems(2) False f f' by (simp add: nl_def)
    have "p_elems (Suc f'') ?tail = Some (xs, rest)"
    proof (rule p_elems_printed [OF _ False len])
      fix x k g r
      assume "x \<in> set xs" and "length (ser k x) < g" and "ends_number r"
      then show "p_val g (ser k x @ r) = Some (x, r)"
        using JArr.IH [of x k g r] JArr.prems(1) by simp
    qed
    then have elems: "p_elems f' (c # cs @ nl n @ CHR '']'' # rest) = Some (xs, rest)"
      using start(1) f' by simp
    show ?thesis
      using False f skip elems value_start_other [OF start(2)]
      by (simp del: p_elems.simps)
  qed
next
  case (JObj kvs)
  then obtain f' where f: "f = Suc f'" by (cases f) auto
  have defined: "\<forall>kv \<in> set kvs. snd kv \<noteq> JUndefined"
    using JObj.prems(1) by auto
  note none = all_undefined_none [OF defined]
  have keys: "obj_of kvs = JObj kvs"
    using JObj.prems(1) by (simp add: obj_of_distinct)
  show ?case
  proof (cases "kvs = []")
    case True
    with f show ?thesis by (simp add: skip_ws_stop json_ws_def all_undefined_def)
  next
    case False
    let ?tail = "ser_members (n + 2) kvs @ nl n @ CHR ''}'' # rest"
    obtain kv kvs' where first: "kvs = kv # kvs'" using False by (cases kvs) auto
    have "snd kv \<noteq> JUndefined" using defined first by simp
    then have start: "ser_members (n + 2) kvs = CHR 0x22 # tl (ser_members (n + 2) kvs)"
      using first by (simp add: quote_def)
    have skip: "skip_ws (nl (n + 2) @ ?tail)
        = CHR 0x22 # tl (ser_members (n + 2) kvs) @ nl n @ CHR ''}'' # rest"
      by (subst start) (simp add: skip_ws_nl skip_ws_stop json_ws_def)
    obtain f'' where f': "f' = Suc f''"
      using JObj.prems(2) False f none by (cases f') auto
    have len: "length (ser_members (n + 2) kvs) < f''"
      using JObj.prems(2) False f f' none by (simp add: nl_def)
    have "p_members (Suc f'') ?tail = Some (kvs, rest)"
    proof (rule p_members_printed [OF _ False defined len])
      fix kv k g r
      assume "kv \<in> set kvs" and "length (ser k (snd kv)) < g" and "ends_number r"
      moreover have "snd kv \<in> Basic_BNFs.snds kv" by (cases kv) simp
      moreover have "json_value (snd kv)" using JObj.prems(1) \<open>kv \<in> set kvs\<close> by simp
      ultimately show "p_val g (ser k (snd kv) @ r) = Some (snd kv, r)"
        using JObj.IH [of kv "snd kv" k g r] by blast
    qed
    then have members: "p_members f' (CHR 0x22 # tl (ser_members (n + 2) kvs) @ nl n @ CHR ''}'' # rest)
        = Some (kvs, rest)"
      using start f' by (metis append_Cons)
    show ?thesis
      using False f skip members none keys
      by (simp del: p_members.simps)
  qed
qed

lemma parse_printed:
  assumes "json_value v"
  shows "parse (ser 0 v) = Some v"
proof -
  obtain c cs where start: "ser 0 v = c # cs" "value_start c"
    using ser_start by blast
  have skip: "skip_ws (ser 0 v) = ser 0 v"
    using start by (simp add: skip_ws_stop value_start_not_ws)
  have "p_val (Suc (length (ser 0 v))) (ser 0 v @ []) = Some (v, [])"
    using assms by (intro p_val_printed) (simp_all add: ends_number_def)
  moreover have "skip_ws [] = []" by (simp add: skip_ws_def)
  ultimately show ?thesis
    by (simp add: parse_def skip del: p_val.simps)
qed

subsection \<open>Trimming what was printed\<close>

lemma ws_len_zero:
  assumes "\<forall>w \<in> set W. w \<noteq> [] \<and> hd w \<noteq> c"
  shows "ws_len W (c # cs) = 0"
proof -
  have "\<not> (\<exists>w. w \<in> set W \<and> take (length w) (c # cs) = w)"
  proof
    assume "\<exists>w. w \<in> set W \<and> take (length w) (c # cs) = w"
    then obtain w where w: "w \<in> set W" "take (length w) (c # cs) = w" by blast
    with assms have "w \<noteq> []" "hd w \<noteq> c" by auto
    then obtain a as where "w = a # as" "a \<noteq> c" by (cases w) auto
    with w(2) show False by simp
  qed
  then have "find (\<lambda>w. take (length w) (c # cs) = w) W = None"
    by (simp add: find_None_iff)
  then show ?thesis by (simp add: ws_len_def)
qed

lemma strip_none:
  assumes "\<forall>w \<in> set W. w \<noteq> [] \<and> hd w \<noteq> c"
  shows "strip W (c # cs) = c # cs"
  by (subst strip.simps) (simp add: ws_len_zero [OF assms])

lemma value_start_no_space:
  assumes "value_start c"
  shows "\<forall>w \<in> set js_whitespace. w \<noteq> [] \<and> hd w \<noteq> c"
  using assms by (auto simp: js_whitespace_def value_start_def)

lemma value_end_no_space:
  assumes "value_end c"
  shows "\<forall>w \<in> set (map rev js_whitespace). w \<noteq> [] \<and> hd w \<noteq> c"
  using assms by (auto simp: js_whitespace_def value_end_def)

lemma trim_printed: "trim (ser n v) = ser n v"
proof -
  obtain c cs where start: "ser n v = c # cs" "value_start c"
    using ser_start by blast
  have a: "strip js_whitespace (ser n v) = ser n v"
    unfolding start(1) by (rule strip_none [OF value_start_no_space [OF start(2)]])
  have "ser n v \<noteq> []" and e: "value_end (last (ser n v))"
    using ser_end [of n v] by simp_all
  then have r: "rev (ser n v) = last (ser n v) # rev (butlast (ser n v))"
    by (metis append_butlast_last_id rev.simps(2) rev_append rev_rev_ident append_Nil append_Cons)
  have b: "strip (map rev js_whitespace) (rev (ser n v)) = rev (ser n v)"
    by (subst (1 2) r) (rule strip_none [OF value_end_no_space [OF e]])
  show ?thesis by (simp add: trim_def a b)
qed

text \<open>
  Claim C6. In the concrete runtime, for every document \<open>d\<close> that is a JSON value (no
  \<^verbatim>\<open>undefined\<close> inside, no key twice in an object; every BoardDocument of the data model
  is one) and every file system in which the backing path is not a directory, writing
  \<open>d\<close> succeeds and reading right after it returns \<open>d\<close> itself: the same \<^verbatim>\<open>content\<close>,
  the same \<^verbatim>\<open>moodImages\<close>, and every other property as well.
\<close>

theorem write_read_roundtrip:
  assumes "json_value d" and "fs (fst (DATA_FILE nodejs)) \<noteq> Some Dir"
  shows "\<exists>fs'. writeBoard nodejs d fs = Inr fs'
      \<and> readBoard nodejs fs' = d
      \<and> get_prop (readBoard nodejs fs') ''content'' = get_prop d ''content''
      \<and> get_prop (readBoard nodejs fs') ''moodImages'' = get_prop d ''moodImages''"
proof -
  let ?fs' = "fs(fst (DATA_FILE nodejs) \<mapsto> File (ser 0 d))"
  from assms(1) have "d \<noteq> JUndefined" by auto
  then have "JSON_stringify nodejs d = Some (ser 0 d)"
    by (simp add: nodejs_def stringify_def)
  with assms(2) have w: "writeBoard nodejs d fs = Inr ?fs'"
    by (rule writeBoard_file)
  have "ser 0 d \<noteq> []" using ser_end [of 0 d] by simp
  moreover have "JSON_parse nodejs (ser 0 d) = Some d"
    using parse_printed [OF assms(1)] by (simp add: nodejs_def)
  ultimately have r: "readBoard nodejs ?fs' = d"
    by (simp add: readBoard_unfold trim_printed)
  from w r show ?thesis by simp
qed

theorem write_read_roundtrip_witness:
  "json_value (defaultBoard noon)
   \<and> fresh nodejs (fst (DATA_FILE nodejs)) \<noteq> Some Dir
   \<and> (\<exists>fs'. writeBoard nodejs (defaultBoard noon) (fresh nodejs) = Inr fs'
         \<and> readBoard nodejs fs' = defaultBoard noon)"
proof -
  have v: "json_value (defaultBoard noon)"
    by (simp add: defaultBoard_def default_content_def)
  have d: "fresh nodejs (fst (DATA_FILE nodejs)) \<noteq> Some Dir"
    by code_simp
  from write_read_roundtrip [of "defaultBoard noon" "fresh nodejs", OF v d] v d
  show ?thesis by blast
qed

end
